theory Spec2Isabelle
  imports Main "HOL-Library.Sublist"
begin

section \<open>Process state, events and the logger\<close>

text \<open>
  The program is one file, \<^verbatim>\<open>main.go\<close>: a panic-recovery middleware around an HTTP
  multiplexer with two routes, and a \<^verbatim>\<open>main\<close> that serves on a goroutine, waits for a
  termination signal, cleans up and drains the server.

  Everything the program does beyond computing values is recorded in a trace of events,
  in the order in which it happens, together with a logical clock that moves only where
  the program sleeps or waits for the drain. A duration is Go's \<^verbatim>\<open>time.Duration\<close>, a
  number of nanoseconds.
\<close>

type_synonym duration = int

definition Second :: duration where
  "Second = 1000000000"

type_synonym signal = nat

definition SIGINT :: signal where
  "SIGINT = 2"

definition SIGTERM :: signal where
  "SIGTERM = 15"

datatype event =
    Logged string
  | Slept duration
  | CtxCreated int
  | CtxCancelled
  | DrainCalled int int
  | ChanSend signal
  | ChanRecv signal

text \<open>
  \<open>Logged l\<close>: the logger wrote the entry \<open>l\<close>; \<open>Slept d\<close>: \<^verbatim>\<open>time.Sleep(d)\<close>;
  \<open>CtxCreated dl\<close>: \<^verbatim>\<open>context.WithTimeout\<close> made a token with deadline \<open>dl\<close>;
  \<open>CtxCancelled\<close>: its \<^verbatim>\<open>cancel\<close> ran; \<open>DrainCalled now dl\<close>: \<^verbatim>\<open>server.Shutdown\<close> was
  called at time \<open>now\<close> with a token of deadline \<open>dl\<close>; \<open>ChanSend sg\<close> and \<open>ChanRecv sg\<close>:
  the signal \<open>sg\<close> was written to, and read from, the channel \<^verbatim>\<open>stop\<close>.
\<close>

record pstate =
  clock :: int
  trace :: "event list"

text \<open>
  How a piece of Go code ends: it returns, it panics with a value (kept as the text
  that \<^verbatim>\<open>%v\<close> prints for it), or it ends the process with \<^verbatim>\<open>os.Exit\<close>. The value
  that \<^verbatim>\<open>recover()\<close> hands to a deferred function is never \<^verbatim>\<open>nil\<close> while a panic is
  in flight (a \<^verbatim>\<open>panic(nil)\<close> arrives as a run-time error value), so the test
  \<^verbatim>\<open>recover() != nil\<close> of the source is the test for \<open>Panicked\<close>.
\<close>

datatype outcome = Returned | Panicked string | Exited nat

abbreviation NL :: char where
  "NL \<equiv> CHR 0x0A"

text \<open>
  \<^verbatim>\<open>var logger = log.New(os.Stdout, "INFO: ", log.LstdFlags|log.Lshortfile)\<close>.
  An entry of the trace holds the message of a log line, which the logger ends with a
  newline when it has none; the header that the logger puts before every message (the
  prefix, the date and time, the file and line) is left out.
\<close>

definition with_newline :: "string \<Rightarrow> string" where
  "with_newline s = (if s = [] \<or> last s \<noteq> NL then s @ [NL] else s)"

definition log_Output :: "string \<Rightarrow> pstate \<Rightarrow> pstate" where
  "log_Output s st = st\<lparr>trace := trace st @ [Logged (with_newline s)]\<rparr>"

definition logger_Println :: "string \<Rightarrow> pstate \<Rightarrow> pstate" where
  "logger_Println msg st = log_Output (msg @ [NL]) st"

text \<open>\<open>logger_Printf\<close> and \<open>logger_Fatalf\<close> take the message already formatted.\<close>

definition logger_Printf :: "string \<Rightarrow> pstate \<Rightarrow> pstate" where
  "logger_Printf msg st = log_Output msg st"

definition logger_Fatalf :: "string \<Rightarrow> pstate \<Rightarrow> outcome \<times> pstate" where
  "logger_Fatalf msg st = (Exited 1, log_Output msg st)"

definition time_Sleep :: "duration \<Rightarrow> pstate \<Rightarrow> pstate" where
  "time_Sleep d st = st\<lparr>clock := clock st + d, trace := trace st @ [Slept d]\<rparr>"

text \<open>
  What the program takes from its surroundings: the text of the goroutine profile that
  \<^verbatim>\<open>pprof.Lookup("goroutine").WriteTo(&buf, 2)\<close> produces, the status with which the
  multiplexer of \<^verbatim>\<open>net/http\<close> redirects (301 in older releases of Go, 307 in recent
  ones) and the page it writes with a redirect, the behaviour of \<^verbatim>\<open>server.Shutdown\<close>
  (called at a time with a deadline, it yields its error, \<open>None\<close> for \<^verbatim>\<open>nil\<close>, and the
  time it took), and which signals end a Go process that has not asked to be notified
  of them.
\<close>

record env =
  snapshot :: string
  redirect_code :: nat
  redirect_page :: "string \<Rightarrow> string"
  drain :: "int \<Rightarrow> int \<Rightarrow> string option \<times> duration"
  fatal_by_default :: "signal \<Rightarrow> bool"

section \<open>Requests, responses and the multiplexer\<close>

text \<open>
  A request is known by its method, the path of its URL and its request target
  (\<^verbatim>\<open>r.Method\<close>, \<^verbatim>\<open>r.URL.Path\<close>, \<^verbatim>\<open>r.RequestURI\<close>). The path is taken to be sent in
  its default encoding (\<^verbatim>\<open>r.URL.RawPath\<close> is empty), so that its slashes and dots are
  those of \<^verbatim>\<open>r.URL.EscapedPath()\<close> too: a request whose path is sent with other
  percent-encoded bytes is outside the model. A response writer holds the status once the header is
  written (\<open>None\<close> before) and the bytes of the body written so far; header fields (and
  with them a declared \<^verbatim>\<open>Content-Length\<close>) are not part of the model, and neither are
  the interim responses that go out before the header.
\<close>

record request =
  Method :: string
  URL_Path :: string
  RequestURI :: string

record response_writer =
  status :: "nat option"
  body :: string

definition new_response :: response_writer where
  "new_response = \<lparr>status = None, body = []\<rparr>"

text \<open>
  A \<^verbatim>\<open>WriteHeader\<close> on a response whose header is written changes nothing. An
  informational code (1xx other than 101, \<^verbatim>\<open>StatusSwitchingProtocols\<close>) goes out at once
  as an interim response and leaves the header unwritten. Any other code is written as
  the status of the response.
\<close>

definition rw_WriteHeader :: "nat \<Rightarrow> response_writer \<Rightarrow> response_writer" where
  "rw_WriteHeader code w =
     (if status w \<noteq> None then w
      else if 100 \<le> code \<and> code \<le> 199 \<and> code \<noteq> 101 then w
      else w\<lparr>status := Some code\<rparr>)"

definition bodyAllowedForStatus :: "nat \<Rightarrow> bool" where
  "bodyAllowedForStatus code =
     (if 100 \<le> code \<and> code \<le> 199 then False
      else if code = 204 then False
      else if code = 304 then False
      else True)"

text \<open>A \<^verbatim>\<open>Write\<close> before any \<^verbatim>\<open>WriteHeader\<close> writes the header with status 200 first.\<close>

definition rw_Write :: "string \<Rightarrow> response_writer \<Rightarrow> response_writer" where
  "rw_Write bytes w =
     (let w' = (if status w = None then rw_WriteHeader 200 w else w)
      in case status w' of
           None \<Rightarrow> w'
         | Some code \<Rightarrow>
             if bodyAllowedForStatus code then w'\<lparr>body := body w' @ bytes\<rparr> else w')"

definition fmt_Fprintln :: "string \<Rightarrow> response_writer \<Rightarrow> response_writer" where
  "fmt_Fprintln s w = rw_Write (s @ [NL]) w"

definition http_Error :: "string \<Rightarrow> nat \<Rightarrow> response_writer \<Rightarrow> response_writer" where
  "http_Error msg code w = fmt_Fprintln msg (rw_WriteHeader code w)"

definition StatusInternalServerError :: nat where
  "StatusInternalServerError = 500"

text \<open>
  What the client is sent when the handler is done: a response whose header was never
  written goes out with status 200, and the answer to a HEAD request goes out without
  the bytes written as its body.
\<close>

definition client_response :: "request \<Rightarrow> response_writer \<Rightarrow> nat \<times> string" where
  "client_response r w =
     (let sent = (if Method r = ''HEAD'' then [] else body w)
      in case status w of None \<Rightarrow> (200, sent) | Some code \<Rightarrow> (code, sent))"

text \<open>
  A handler (\<^verbatim>\<open>http.Handler\<close>) works on the response writer of its request and on
  the state of the process, and ends like any piece of code.
\<close>

type_synonym http_Handler =
  "request \<Rightarrow> response_writer \<times> pstate \<Rightarrow> outcome \<times> (response_writer \<times> pstate)"


subsection \<open>Cleaning a path\<close>

text \<open>
  \<^verbatim>\<open>path.Clean\<close> on a path that begins with a slash, the only kind \<^verbatim>\<open>cleanPath\<close> gives
  it: runs of slashes count as one, \<^verbatim>\<open>.\<close> elements go, a \<^verbatim>\<open>..\<close> element goes together
  with the element before it, or alone at the root; the result ends in a slash only when
  it is the root.
\<close>

fun split_slash :: "string \<Rightarrow> string list" where
  "split_slash [] = [[]]"
| "split_slash (c # cs) =
     (if c = CHR ''/'' then [] # split_slash cs
      else (case split_slash cs of [] \<Rightarrow> [[c]] | e # es \<Rightarrow> (c # e) # es))"

text \<open>\<open>out\<close> holds the elements kept so far, the latest first.\<close>

fun clean_elems :: "string list \<Rightarrow> string list \<Rightarrow> string list" where
  "clean_elems out [] = rev out"
| "clean_elems out (e # es) =
     (if e = [] \<or> e = ''.'' then clean_elems out es
      else if e = ''..'' then
        (case out of [] \<Rightarrow> clean_elems [] es | _ # out' \<Rightarrow> clean_elems out' es)
      else clean_elems (e # out) es)"

definition path_Clean :: "string \<Rightarrow> string" where
  "path_Clean p =
     (case clean_elems [] (split_slash p) of
        [] \<Rightarrow> ''/''
      | e # es \<Rightarrow> concat (map (\<lambda>x. CHR ''/'' # x) (e # es)))"

definition cleanPath :: "string \<Rightarrow> string" where
  "cleanPath p0 =
     (case p0 of
        [] \<Rightarrow> ''/''
      | c # _ \<Rightarrow>
          let p = (if c \<noteq> CHR ''/'' then CHR ''/'' # p0 else p0);
              np = path_Clean p
          in if last p = CHR ''/'' \<and> np \<noteq> ''/''
             then (if length p = length np + 1 \<and> prefix np p then p else np @ ''/'')
             else np)"

subsection \<open>The multiplexer\<close>

text \<open>
  \<^verbatim>\<open>http.ServeMux\<close> as the list of its registrations. No pattern of this program names
  a host, so the lookups by host are left out. \<^verbatim>\<open>HandleFunc\<close> panics on a pattern that
  is empty or registered already; \<^verbatim>\<open>main\<close> registers two distinct patterns.
\<close>

type_synonym serve_mux = "(string \<times> http_Handler) list"

definition NewServeMux :: serve_mux where
  "NewServeMux = []"

definition HandleFunc :: "string \<Rightarrow> http_Handler \<Rightarrow> serve_mux \<Rightarrow> serve_mux" where
  "HandleFunc pattern h m = m @ [(pattern, h)]"

text \<open>
  A path is matched by the pattern equal to it, or else by the longest pattern that
  ends in a slash and is a prefix of it.
\<close>

definition longer :: "string \<times> http_Handler \<Rightarrow> (string \<times> http_Handler) option
    \<Rightarrow> (string \<times> http_Handler) option" where
  "longer e best =
     (case best of
        None \<Rightarrow> Some e
      | Some b \<Rightarrow> if length (fst b) < length (fst e) then Some e else Some b)"

definition mux_match :: "serve_mux \<Rightarrow> string \<Rightarrow> http_Handler option" where
  "mux_match m p =
     (case map_of m p of
        Some h \<Rightarrow> Some h
      | None \<Rightarrow>
          map_option snd
            (fold longer
               (filter (\<lambda>e. fst e \<noteq> [] \<and> last (fst e) = CHR ''/'' \<and> prefix (fst e) p) m)
               None))"

definition NotFound :: http_Handler where
  "NotFound r ws = (case ws of (w, st) \<Rightarrow> (Returned, (http_Error ''404 page not found'' 404 w, st)))"

definition mux_handler :: "serve_mux \<Rightarrow> string \<Rightarrow> http_Handler" where
  "mux_handler m p = (case mux_match m p of Some h \<Rightarrow> h | None \<Rightarrow> NotFound)"

text \<open>
  A path that is not registered while the same path with a slash added is, is
  redirected to the latter.
\<close>

definition shouldRedirect :: "serve_mux \<Rightarrow> string \<Rightarrow> bool" where
  "shouldRedirect m p =
     (if map_of m p \<noteq> None then False
      else if p = [] then False
      else if map_of m (p @ ''/'') \<noteq> None then last p \<noteq> CHR ''/''
      else False)"

text \<open>
  \<^verbatim>\<open>http.RedirectHandler(url, code)\<close>: the status, and for a GET the page that names the
  new place. The multiplexer calls it with the status \<open>redirect_code\<close> of the
  surroundings.
\<close>

definition RedirectHandler :: "env \<Rightarrow> string \<Rightarrow> nat \<Rightarrow> http_Handler" where
  "RedirectHandler e url code r ws =
     (case ws of (w, st) \<Rightarrow>
        (Returned,
         (let w' = rw_WriteHeader code w
          in if Method r = ''GET'' then fmt_Fprintln (redirect_page e url) w' else w',
          st)))"

definition StatusBadRequest :: nat where
  "StatusBadRequest = 400"

text \<open>
  How the multiplexer finds the handler of a request (\<^verbatim>\<open>ServeMux.Handler\<close>, named
  \<^verbatim>\<open>findHandler\<close> since Go 1.22): a CONNECT request is looked up by its path as it is;
  any other request has its path cleaned, and is redirected to the clean path when that
  differs. Up to Go 1.21 the path cleaned and matched is \<^verbatim>\<open>r.URL.Path\<close>; since Go 1.22 it
  is \<^verbatim>\<open>r.URL.EscapedPath()\<close>, matched segment by segment after unescaping; on a path in
  its default encoding, the only kind a request of this model has, the two are the same
  lookup, and the status of the redirect is all that differs.
\<close>

definition mux_Handler :: "env \<Rightarrow> serve_mux \<Rightarrow> request \<Rightarrow> http_Handler" where
  "mux_Handler e m r =
     (if Method r = ''CONNECT'' then
        (if shouldRedirect m (URL_Path r)
         then RedirectHandler e (URL_Path r @ ''/'') (redirect_code e)
         else mux_handler m (URL_Path r))
      else
        (let p = cleanPath (URL_Path r)
         in if shouldRedirect m p then RedirectHandler e (p @ ''/'') (redirect_code e)
            else if p \<noteq> URL_Path r then RedirectHandler e p (redirect_code e)
            else mux_handler m (URL_Path r)))"

definition mux_ServeHTTP :: "env \<Rightarrow> serve_mux \<Rightarrow> http_Handler" where
  "mux_ServeHTTP e m r ws =
     (if RequestURI r = ''*''
      then (case ws of (w, st) \<Rightarrow> (Returned, (rw_WriteHeader StatusBadRequest w, st)))
      else mux_Handler e m r r ws)"

section \<open>The recovery middleware and the two routes\<close>

text \<open>
  \<^verbatim>\<open>
  func recoveryMiddleware(next http.Handler) http.Handler {
      return http.HandlerFunc(func(w http.ResponseWriter, r *http.Request) {
          defer func() {
              if err := recover(); err != nil {
                  var buf bytes.Buffer
                  pprof.Lookup("goroutine").WriteTo(&buf, 2)
                  logger.Printf("PANIC RECOVERED: %v\nSTACK TRACE:\n%s", err, buf.String())
                  http.Error(w, "Internal Server Error", http.StatusInternalServerError)
              }
          }()
          next.ServeHTTP(w, r)
      })
  }
  \<close>
  The deferred function runs when \<open>next\<close> returns and when it panics; it does not run
  when \<open>next\<close> ends the process.
\<close>

definition recoveryMiddleware :: "env \<Rightarrow> http_Handler \<Rightarrow> http_Handler" where
  "recoveryMiddleware e next r ws =
     (case next r ws of
        (Returned, ws') \<Rightarrow> (Returned, ws')
      | (Panicked err, (w, st)) \<Rightarrow>
          (let st' = logger_Printf
                       (''PANIC RECOVERED: '' @ err @ [NL] @ ''STACK TRACE:'' @ [NL] @ snapshot e) st;
               w' = http_Error ''Internal Server Error'' StatusInternalServerError w
           in (Returned, (w', st')))
      | (Exited c, ws') \<Rightarrow> (Exited c, ws'))"

text \<open>
  The handler of \<^verbatim>\<open>"/"\<close>: \<^verbatim>\<open>fmt.Fprintln(w, "Hello, World!")\<close>; the handler of
  \<^verbatim>\<open>"/panic"\<close>: \<^verbatim>\<open>panic("Something went wrong!")\<close>.
\<close>

definition root_handler :: http_Handler where
  "root_handler r ws = (case ws of (w, st) \<Rightarrow> (Returned, (fmt_Fprintln ''Hello, World!'' w, st)))"

definition panic_handler :: http_Handler where
  "panic_handler r ws = (Panicked ''Something went wrong!'', ws)"

definition mux :: serve_mux where
  "mux = HandleFunc ''/panic'' panic_handler (HandleFunc ''/'' root_handler NewServeMux)"

definition handler :: "env \<Rightarrow> http_Handler" where
  "handler e = recoveryMiddleware e (mux_ServeHTTP e mux)"

text \<open>
  The server hands a request to the handler it was given, except the request
  \<^verbatim>\<open>OPTIONS *\<close>, which it answers itself (\<^verbatim>\<open>serverHandler.ServeHTTP\<close> and
  \<^verbatim>\<open>globalOptionsHandler\<close> of \<^verbatim>\<open>net/http\<close>): that handler writes no status and no body.
\<close>

definition globalOptionsHandler :: http_Handler where
  "globalOptionsHandler r ws = (Returned, ws)"

definition serverHandler_ServeHTTP :: "http_Handler \<Rightarrow> http_Handler" where
  "serverHandler_ServeHTTP h r ws =
     (if RequestURI r = ''*'' \<and> Method r = ''OPTIONS'' then globalOptionsHandler r ws
      else h r ws)"

text \<open>
  The server gives every request a response writer of its own. A handler that returns
  has its response sent; one that panics loses its connection without a response, and
  the server carries on; one that ends the process leaves the remaining requests
  unserved. The requests are taken one after the other.
\<close>

fun serve :: "http_Handler \<Rightarrow> request list \<Rightarrow> pstate \<Rightarrow> (nat \<times> string) option list \<times> pstate" where
  "serve h [] st = ([], st)"
| "serve h (r # rs) st =
     (case serverHandler_ServeHTTP h r (new_response, st) of
        (Returned, (w, st')) \<Rightarrow>
          (case serve h rs st' of (resps, st'') \<Rightarrow> (Some (client_response r w) # resps, st''))
      | (Panicked v, (w, st')) \<Rightarrow>
          (case serve h rs st' of (resps, st'') \<Rightarrow> (None # resps, st''))
      | (Exited c, (w, st')) \<Rightarrow> ([], st'))"

section \<open>The lifecycle: serving, waiting for a signal, shutting down\<close>

text \<open>
  The goroutine that serves:
  \<^verbatim>\<open>
  go func() {
      logger.Println("Server started on :8080")
      if err := server.ListenAndServe(); err != nil && err != http.ErrServerClosed {
          logger.Fatalf("Server error: %v", err)
      }
  }()
  \<close>
  Its argument is what \<^verbatim>\<open>ListenAndServe\<close> returns in the end: \<^verbatim>\<open>http.ErrServerClosed\<close>
  after a shutdown, or another error (the port could not be bound, accepting failed).
\<close>

datatype error = ErrServerClosed | OtherError string

fun error_text :: "error \<Rightarrow> string" where
  "error_text ErrServerClosed = ''http: Server closed''"
| "error_text (OtherError s) = s"

definition serve_goroutine :: "error option \<Rightarrow> pstate \<Rightarrow> outcome \<times> pstate" where
  "serve_goroutine err st =
     (let st1 = logger_Println ''Server started on :8080'' st
      in case err of
           None \<Rightarrow> (Returned, st1)
         | Some er \<Rightarrow>
             if er \<noteq> ErrServerClosed
             then logger_Fatalf (''Server error: '' @ error_text er) st1
             else (Returned, st1))"

text \<open>
  \<^verbatim>\<open>
  func cleanup() {
      logger.Println("Cleaning up resources (DB, caches, etc.)...")
      time.Sleep(2 * time.Second)
      logger.Println("Cleanup complete. Server shutting down.")
  }
  \<close>
\<close>

definition cleanup :: "pstate \<Rightarrow> outcome \<times> pstate" where
  "cleanup st =
     (let st1 = logger_Println ''Cleaning up resources (DB, caches, etc.)...'' st;
          st2 = time_Sleep (2 * Second) st1;
          st3 = logger_Println ''Cleanup complete. Server shutting down.'' st2
      in (Returned, st3))"

text \<open>
  The deadline token is known by its deadline. \<^verbatim>\<open>server.Shutdown(ctx)\<close> is the drain:
  the surroundings say how it ends and how long it takes.
\<close>

definition context_WithTimeout :: "duration \<Rightarrow> pstate \<Rightarrow> int \<times> pstate" where
  "context_WithTimeout d st =
     (clock st + d, st\<lparr>trace := trace st @ [CtxCreated (clock st + d)]\<rparr>)"

definition cancel :: "pstate \<Rightarrow> pstate" where
  "cancel st = st\<lparr>trace := trace st @ [CtxCancelled]\<rparr>"

definition server_Shutdown :: "env \<Rightarrow> int \<Rightarrow> pstate \<Rightarrow> string option \<times> pstate" where
  "server_Shutdown e ctx st =
     (case drain e (clock st) ctx of
        (err, took) \<Rightarrow>
          (err, st\<lparr>clock := clock st + took, trace := trace st @ [DrainCalled (clock st) ctx]\<rparr>))"

text \<open>
  What \<^verbatim>\<open>main\<close> does once \<^verbatim>\<open><-stop\<close> has returned (the cleanup step is an argument, so
  that a cleanup other than the one above can be put in its place):
  \<^verbatim>\<open>
  logger.Println("Shutdown signal received. Cleaning up...")
  ctx, cancel := context.WithTimeout(context.Background(), 5*time.Second)
  defer cancel()
  defer func() {
      if x := recover(); x != nil {
          var buf bytes.Buffer
          pprof.Lookup("goroutine").WriteTo(&buf, 2)
          logger.Printf("PANIC DURING SHUTDOWN: %v\nSTACK TRACE:\n%s", x, buf.String())
      }
  }()
  cleanup()
  if err := server.Shutdown(ctx); err != nil {
      logger.Fatalf("Server shutdown failed: %v", err)
  }
  logger.Println("Server exited gracefully.")
  \<close>
  \<open>main_guarded\<close> is the part under the two \<^verbatim>\<open>defer\<close>s, given the token and the
  state in which \<^verbatim>\<open>cleanup()\<close> is called; \<open>main_shutdown\<close> is the whole. The statements
  after the two \<^verbatim>\<open>defer\<close>s run until one of them panics or ends the process.
  \<^verbatim>\<open>os.Exit\<close> (inside \<^verbatim>\<open>Fatalf\<close>) runs no deferred function. Otherwise the deferred
  functions run, the last one first: the recovering function, which logs when a panic
  is in flight and ends it, then \<^verbatim>\<open>cancel\<close>; and \<^verbatim>\<open>main\<close> returns.
\<close>

definition main_guarded ::
    "env \<Rightarrow> (pstate \<Rightarrow> outcome \<times> pstate) \<Rightarrow> int \<Rightarrow> pstate \<Rightarrow> outcome \<times> pstate" where
  "main_guarded e cleanup_step ctx st2 =
     (case (case cleanup_step st2 of
              (Returned, st3) \<Rightarrow>
                (case server_Shutdown e ctx st3 of
                   (Some err, st4) \<Rightarrow> logger_Fatalf (''Server shutdown failed: '' @ err) st4
                 | (None, st4) \<Rightarrow> (Returned, logger_Println ''Server exited gracefully.'' st4))
            | (Panicked x, st3) \<Rightarrow> (Panicked x, st3)
            | (Exited c, st3) \<Rightarrow> (Exited c, st3)) of
        (Exited c, st5) \<Rightarrow> (Exited c, st5)
      | (Returned, st5) \<Rightarrow> (Returned, cancel st5)
      | (Panicked x, st5) \<Rightarrow>
          (Returned,
           cancel
             (logger_Printf
                (''PANIC DURING SHUTDOWN: '' @ x @ [NL] @ ''STACK TRACE:'' @ [NL] @ snapshot e)
                st5)))"

definition main_shutdown :: "env \<Rightarrow> (pstate \<Rightarrow> outcome \<times> pstate) \<Rightarrow> pstate \<Rightarrow> outcome \<times> pstate" where
  "main_shutdown e cleanup_step st0 =
     (let st1 = logger_Println ''Shutdown signal received. Cleaning up...'' st0
      in case context_WithTimeout (5 * Second) st1 of
           (ctx, st2) \<Rightarrow> main_guarded e cleanup_step ctx st2)"

text \<open>
  The exit status of the process: 0 when \<^verbatim>\<open>main\<close> returns, the argument of
  \<^verbatim>\<open>os.Exit\<close>, 2 for a panic that nothing recovers.
\<close>

fun exit_code :: "outcome \<Rightarrow> nat" where
  "exit_code Returned = 0"
| "exit_code (Exited c) = c"
| "exit_code (Panicked x) = 2"

subsection \<open>Signals and the channel\<close>

text \<open>
  \<^verbatim>\<open>
  stop := make(chan os.Signal, 1)
  signal.Notify(stop, syscall.SIGINT, syscall.SIGTERM)
  ...
  <-stop
  \<close>
  The channel is its buffer. A signal that the program asked for is sent to the channel
  without blocking: it is written when the buffer has room and dropped otherwise. Any
  other signal has the effect it has on a Go process by default.

  The main path is in one of four phases: blocked in \<^verbatim>\<open><-stop\<close>; past it, with the
  shutdown ahead; ended with an exit status; killed by a signal. A schedule says in
  which order signals arrive and the main path runs: a run of the main path while it
  is blocked takes a signal from the channel when there is one, and a run past the
  receive does the whole shutdown with the cleanup of this program. The serving
  goroutine is the function above, on its own.
\<close>

definition chan_capacity :: nat where
  "chan_capacity = 1"

definition notified :: "signal \<Rightarrow> bool" where
  "notified sg = (sg = SIGINT \<or> sg = SIGTERM)"

datatype phase = Waiting | ShuttingDown | Ended nat | Killed signal

record process =
  stop :: "signal list"
  phase :: phase
  ps :: pstate

datatype action = Deliver signal | Run

definition start :: "int \<Rightarrow> process" where
  "start t0 = \<lparr>stop = [], phase = Waiting, ps = \<lparr>clock = t0, trace = []\<rparr>\<rparr>"

definition deliver :: "env \<Rightarrow> signal \<Rightarrow> process \<Rightarrow> process" where
  "deliver e sg p =
     (if notified sg then
        (if length (stop p) < chan_capacity
         then p\<lparr>stop := stop p @ [sg], ps := (ps p)\<lparr>trace := trace (ps p) @ [ChanSend sg]\<rparr>\<rparr>
         else p)
      else if fatal_by_default e sg then p\<lparr>phase := Killed sg\<rparr>
      else p)"

definition run_main :: "env \<Rightarrow> process \<Rightarrow> process" where
  "run_main e p =
     (case phase p of
        Waiting \<Rightarrow>
          (case stop p of
             [] \<Rightarrow> p
           | sg # rest \<Rightarrow>
               p\<lparr>stop := rest, phase := ShuttingDown,
                 ps := (ps p)\<lparr>trace := trace (ps p) @ [ChanRecv sg]\<rparr>\<rparr>)
      | ShuttingDown \<Rightarrow>
          (case main_shutdown e cleanup (ps p) of
             (r, st) \<Rightarrow> p\<lparr>phase := Ended (exit_code r), ps := st\<rparr>)
      | Ended c \<Rightarrow> p
      | Killed sg \<Rightarrow> p)"

definition step :: "env \<Rightarrow> process \<Rightarrow> action \<Rightarrow> process" where
  "step e p a =
     (case phase p of
        Ended c \<Rightarrow> p
      | Killed sg \<Rightarrow> p
      | _ \<Rightarrow> (case a of Deliver sg \<Rightarrow> deliver e sg p | Run \<Rightarrow> run_main e p))"

definition run :: "env \<Rightarrow> process \<Rightarrow> action list \<Rightarrow> process" where
  "run e p acts = foldl (step e) p acts"

subsection \<open>Reading a trace\<close>

fun logs :: "event list \<Rightarrow> string list" where
  "logs [] = []"
| "logs (Logged l # evs) = l # logs evs"
| "logs (ev # evs) = logs evs"

fun drain_calls :: "event list \<Rightarrow> (int \<times> int) list" where
  "drain_calls [] = []"
| "drain_calls (DrainCalled now dl # evs) = (now, dl) # drain_calls evs"
| "drain_calls (ev # evs) = drain_calls evs"

fun sends :: "event list \<Rightarrow> signal list" where
  "sends [] = []"
| "sends (ChanSend sg # evs) = sg # sends evs"
| "sends (ev # evs) = sends evs"

fun recvs :: "event list \<Rightarrow> signal list" where
  "recvs [] = []"
| "recvs (ChanRecv sg # evs) = sg # recvs evs"
| "recvs (ev # evs) = recvs evs"

fun is_send :: "event \<Rightarrow> bool" where
  "is_send (ChanSend sg) = True"
| "is_send ev = False"

fun is_recv :: "event \<Rightarrow> bool" where
  "is_recv (ChanRecv sg) = True"
| "is_recv ev = False"

text \<open>The part of a trace before the first read of the channel.\<close>

definition before_recv :: "event list \<Rightarrow> event list" where
  "before_recv evs = takeWhile (\<lambda>ev. \<not> is_recv ev) evs"


section \<open>Sample surroundings and inputs\<close>

text \<open>
  A server whose requests in flight need the time \<open>need\<close> to finish: the drain called at
  \<open>now\<close> with deadline \<open>dl\<close> succeeds after \<open>need\<close> when that is within the deadline, and
  fails at the deadline otherwise.
\<close>

definition drain_needing :: "duration \<Rightarrow> int \<Rightarrow> int \<Rightarrow> string option \<times> duration" where
  "drain_needing need now dl =
     (if now + need \<le> dl then (None, need)
      else (Some ''context deadline exceeded'', max 0 (dl - now)))"

definition env0 :: "duration \<Rightarrow> env" where
  "env0 need =
     \<lparr>snapshot = ''goroutine 1 [running]:'' @ [NL],
      redirect_code = 307,
      redirect_page = (\<lambda>url. ''Temporary Redirect: '' @ url),
      drain = drain_needing need,
      fatal_by_default = (\<lambda>sg. sg = 1 \<or> sg = 3 \<or> sg = 9)\<rparr>"

definition st0 :: pstate where
  "st0 = \<lparr>clock = 0, trace = []\<rparr>"

definition request_for :: "string \<Rightarrow> string \<Rightarrow> request" where
  "request_for m p = \<lparr>Method = m, URL_Path = p, RequestURI = p\<rparr>"

text \<open>The response that the server gives to a request on its own.\<close>

definition respond :: "env \<Rightarrow> request \<Rightarrow> nat \<times> string" where
  "respond e r =
     client_response r (fst (snd (serverHandler_ServeHTTP (handler e) r (new_response, st0))))"

text \<open>A handler that has sent its status and part of its body when it panics.\<close>

definition late_panic_handler :: http_Handler where
  "late_panic_handler r ws =
     (case ws of (w, st) \<Rightarrow>
        (Panicked ''lost the database'', (rw_Write ''partial'' (rw_WriteHeader 201 w), st)))"

text \<open>A cleanup that fails half way: it logs its first line and panics.\<close>

definition failing_cleanup :: "pstate \<Rightarrow> outcome \<times> pstate" where
  "failing_cleanup st =
     (Panicked ''connection pool already closed'',
      logger_Println ''Cleaning up resources (DB, caches, etc.)...'' st)"


section \<open>The shapes a run can have\<close>

text \<open>
  Where the main path is decides what the channel and the trace look like. While it
  waits, at most one signal has been written, and it is still in the channel. Past the
  receive, that signal has been written and read, and at most one more has been written
  since, which stays in the channel. At the end, the trace is the one past the receive
  followed by what the shutdown did. A kill leaves the trace as it was.
\<close>

definition waiting_shape :: "int \<Rightarrow> process \<Rightarrow> bool" where
  "waiting_shape t0 p =
     (clock (ps p) = t0 \<and>
      ((stop p = [] \<and> trace (ps p) = []) \<or>
       (\<exists>sg. notified sg \<and> stop p = [sg] \<and> trace (ps p) = [ChanSend sg])))"

definition received_shape :: "int \<Rightarrow> process \<Rightarrow> bool" where
  "received_shape t0 p =
     (clock (ps p) = t0 \<and>
      (\<exists>sg. notified sg \<and>
         ((stop p = [] \<and> trace (ps p) = [ChanSend sg, ChanRecv sg]) \<or>
          (\<exists>sg'. notified sg' \<and> stop p = [sg'] \<and>
             trace (ps p) = [ChanSend sg, ChanRecv sg, ChanSend sg']))))"

definition ended_shape :: "env \<Rightarrow> int \<Rightarrow> nat \<Rightarrow> process \<Rightarrow> bool" where
  "ended_shape e t0 c p =
     (\<exists>q. received_shape t0 q \<and> stop p = stop q \<and>
        ps p = snd (main_shutdown e cleanup (ps q)) \<and>
        c = exit_code (fst (main_shutdown e cleanup (ps q))))"

definition run_invariant :: "env \<Rightarrow> int \<Rightarrow> process \<Rightarrow> bool" where
  "run_invariant e t0 p =
     (case phase p of
        Waiting \<Rightarrow> waiting_shape t0 p
      | ShuttingDown \<Rightarrow> received_shape t0 p
      | Ended c \<Rightarrow> ended_shape e t0 c p
      | Killed sg \<Rightarrow> waiting_shape t0 p \<or> received_shape t0 p)"

section \<open>Facts about the multiplexer of this program\<close>

lemma map_of_mux:
  "map_of mux p = (if p = ''/'' then Some root_handler else if p = ''/panic'' then Some panic_handler else None)"
  by (simp add: mux_def HandleFunc_def NewServeMux_def)

lemma shouldRedirect_mux: "shouldRedirect mux p = False"
  by (cases p rule: rev_cases) (auto simp add: shouldRedirect_def map_of_mux)

lemma mux_handler_mux:
  "mux_handler mux p =
     (if p = ''/panic'' then panic_handler
      else if prefix ''/'' p then root_handler
      else NotFound)"
  by (auto simp add: mux_handler_def mux_match_def map_of_mux mux_def HandleFunc_def NewServeMux_def longer_def)

lemma path_Clean_rooted: "\<exists>rest. path_Clean p = CHR ''/'' # rest"
  by (simp add: path_Clean_def split: list.split)

lemma cleanPath_rooted: "\<exists>rest. cleanPath p = CHR ''/'' # rest"
proof (cases p)
  case Nil
  then show ?thesis by (simp add: cleanPath_def)
next
  case (Cons c cs)
  obtain rest where r: "path_Clean (if c \<noteq> CHR ''/'' then CHR ''/'' # p else p) = CHR ''/'' # rest"
    using path_Clean_rooted by blast
  show ?thesis
    using Cons r by (auto simp add: cleanPath_def Let_def)
qed

lemma clean_is_rooted: "cleanPath p = p \<Longrightarrow> prefix ''/'' p"
  using cleanPath_rooted [of p] by auto

lemma mux_Handler_canonical:
  assumes "cleanPath (URL_Path r) = URL_Path r"
  shows "mux_Handler e mux r = (if URL_Path r = ''/panic'' then panic_handler else root_handler)"
  using assms clean_is_rooted [OF assms]
  by (auto simp add: mux_Handler_def shouldRedirect_mux mux_handler_mux Let_def)

lemma mux_ServeHTTP_shape:
  "\<exists>out w'. (\<forall>st. mux_ServeHTTP e mux r (w, st) = (out, (w', st))) \<and> (\<forall>c. out \<noteq> Exited c)"
  by (auto simp add: mux_ServeHTTP_def mux_Handler_def shouldRedirect_mux mux_handler_mux Let_def
        RedirectHandler_def NotFound_def root_handler_def panic_handler_def)

lemma handler_shape:
  "\<exists>w' evs. \<forall>st. handler e r (w, st) = (Returned, (w', st\<lparr>trace := trace st @ evs\<rparr>))"
proof -
  obtain out w' where a: "\<And>st. mux_ServeHTTP e mux r (w, st) = (out, (w', st))"
    and b: "\<And>c. out \<noteq> Exited c"
    using mux_ServeHTTP_shape [of e r w] by blast
  show ?thesis
  proof (cases out)
    case Returned
    have "\<forall>st. handler e r (w, st) = (Returned, (w', st\<lparr>trace := trace st @ []\<rparr>))"
      using a Returned by (simp add: handler_def recoveryMiddleware_def)
    then show ?thesis by blast
  next
    case (Panicked x)
    then show ?thesis
      using a by (simp add: handler_def recoveryMiddleware_def logger_Printf_def log_Output_def) blast
  next
    case (Exited c)
    then show ?thesis using b by simp
  qed
qed

lemma server_passes:
  "RequestURI r \<noteq> ''*'' \<Longrightarrow> serverHandler_ServeHTTP h r ws = h r ws"
  by (simp add: serverHandler_ServeHTTP_def)

lemma server_shape:
  "\<exists>w' evs. \<forall>st. serverHandler_ServeHTTP (handler e) r (w, st) =
     (Returned, (w', st\<lparr>trace := trace st @ evs\<rparr>))"
proof (cases "RequestURI r = ''*'' \<and> Method r = ''OPTIONS''")
  case True
  then have "\<forall>st. serverHandler_ServeHTTP (handler e) r (w, st) =
      (Returned, (w, st\<lparr>trace := trace st @ []\<rparr>))"
    by (simp add: serverHandler_ServeHTTP_def globalOptionsHandler_def)
  then show ?thesis by blast
next
  case False
  then have "serverHandler_ServeHTTP (handler e) r (w, st) = handler e r (w, st)" for st
    by (auto simp add: serverHandler_ServeHTTP_def)
  then show ?thesis
    using handler_shape [of e r w] by simp
qed

lemma serve_handler: "fst (serve (handler e) rs st) = map (\<lambda>q. Some (respond e q)) rs"
proof (induction rs arbitrary: st)
  case Nil
  show ?case by simp
next
  case (Cons r rs)
  obtain w' evs where h: "\<And>s. serverHandler_ServeHTTP (handler e) r (new_response, s) =
      (Returned, (w', s\<lparr>trace := trace s @ evs\<rparr>))"
    using server_shape [of e r new_response] by blast
  have "respond e r = client_response r w'"
    by (simp add: respond_def h)
  then show ?case
    using Cons.IH [of "st\<lparr>trace := trace st @ evs\<rparr>"]
    by (cases "serve (handler e) rs (st\<lparr>trace := trace st @ evs\<rparr>)") (simp add: h)
qed

lemma http_Error_fresh:
  "status w = None \<Longrightarrow>
   http_Error ''Internal Server Error'' StatusInternalServerError w =
     w\<lparr>status := Some 500, body := body w @ ''Internal Server Error'' @ [NL]\<rparr>"
  by (simp add: http_Error_def fmt_Fprintln_def rw_Write_def rw_WriteHeader_def
      bodyAllowedForStatus_def StatusInternalServerError_def)

lemma http_Error_written:
  "status w = Some code \<Longrightarrow>
   http_Error ''Internal Server Error'' StatusInternalServerError w =
     (if bodyAllowedForStatus code then w\<lparr>body := body w @ ''Internal Server Error'' @ [NL]\<rparr>
      else w)"
  by (simp add: http_Error_def fmt_Fprintln_def rw_Write_def rw_WriteHeader_def)

lemma http_Error_cases:
  "http_Error ''Internal Server Error'' StatusInternalServerError w =
     (case status w of
        None \<Rightarrow> w\<lparr>status := Some 500, body := body w @ ''Internal Server Error'' @ [NL]\<rparr>
      | Some code \<Rightarrow>
          if bodyAllowedForStatus code
          then w\<lparr>body := body w @ ''Internal Server Error'' @ [NL]\<rparr>
          else w)"
  by (cases "status w") (simp_all add: http_Error_fresh http_Error_written)

lemma hello_fresh:
  "root_handler r (new_response, st) =
     (Returned, (\<lparr>status = Some 200, body = ''Hello, World!'' @ [NL]\<rparr>, st))"
  by (simp add: root_handler_def fmt_Fprintln_def rw_Write_def rw_WriteHeader_def
      bodyAllowedForStatus_def new_response_def)

lemma late_panic_fresh:
  "late_panic_handler r (new_response, st) =
     (Panicked ''lost the database'', (\<lparr>status = Some 201, body = ''partial''\<rparr>, st))"
  by (simp add: late_panic_handler_def rw_Write_def rw_WriteHeader_def bodyAllowedForStatus_def
      new_response_def)

section \<open>The recovery middleware\<close>

text \<open>
  Claim C1, as stated: when the underlying handler raises a fault, the wrapper writes a
  fixed response with status 500. It fails for a handler that has written the header of
  its response before it panics: the status it wrote stands, and the client is sent
  that status, with the fixed error text after the part of the body already written.
\<close>

theorem late_panic_keeps_status:
  "late_panic_handler (request_for ''GET'' ''/'') (new_response, st0) =
     (Panicked ''lost the database'', (\<lparr>status = Some 201, body = ''partial''\<rparr>, st0)) \<and>
   recoveryMiddleware (env0 0) late_panic_handler (request_for ''GET'' ''/'') (new_response, st0) =
     (Returned,
      (\<lparr>status = Some 201, body = ''partial'' @ ''Internal Server Error'' @ [NL]\<rparr>,
       \<lparr>clock = 0,
        trace = [Logged (''PANIC RECOVERED: lost the database'' @ [NL] @ ''STACK TRACE:'' @ [NL]
                   @ ''goroutine 1 [running]:'' @ [NL])]\<rparr>)) \<and>
   client_response (request_for ''GET'' ''/'')
     (fst (snd (recoveryMiddleware (env0 0) late_panic_handler (request_for ''GET'' ''/'')
                  (new_response, st0)))) =
     (201, ''partial'' @ ''Internal Server Error'' @ [NL])"
  by (simp add: recoveryMiddleware_def late_panic_fresh http_Error_written bodyAllowedForStatus_def
      logger_Printf_def log_Output_def with_newline_def client_response_def request_for_def
      st0_def env0_def)

text \<open>
  Claim C1, amended. Whatever handler the middleware wraps and whatever the request, the
  wrapped handler never panics towards its caller. When the inner handler panics with a
  value, the middleware logs one entry made of the value and the snapshot of the stacks
  and makes the fixed error write (\<^verbatim>\<open>Internal Server Error\<close>, status 500) on the response
  writer as the inner handler left it: on a response whose header is not yet written
  that sets the status 500 and adds the fixed text and a newline to the body; on a
  response whose header is written the status stands, and the fixed text and a newline
  are added to the body where that status allows a body, and nothing changes where it
  does not. When the inner handler does not panic, the wrapped handler does exactly what
  the inner one does.
\<close>

theorem recoveryMiddleware_contains_faults:
  "(\<forall>x. fst (recoveryMiddleware e next r ws) \<noteq> Panicked x) \<and>
   (\<forall>x w st. next r ws = (Panicked x, (w, st)) \<longrightarrow>
      recoveryMiddleware e next r ws =
        (Returned,
         ((case status w of
             None \<Rightarrow> w\<lparr>status := Some 500, body := body w @ ''Internal Server Error'' @ [NL]\<rparr>
           | Some code \<Rightarrow>
               if bodyAllowedForStatus code
               then w\<lparr>body := body w @ ''Internal Server Error'' @ [NL]\<rparr>
               else w),
          st\<lparr>trace := trace st @
             [Logged (with_newline
                (''PANIC RECOVERED: '' @ x @ [NL] @ ''STACK TRACE:'' @ [NL] @ snapshot e))]\<rparr>))) \<and>
   ((\<forall>x. fst (next r ws) \<noteq> Panicked x) \<longrightarrow> recoveryMiddleware e next r ws = next r ws)"
proof (intro conjI allI impI)
  fix x
  show "fst (recoveryMiddleware e next r ws) \<noteq> Panicked x"
    by (simp add: recoveryMiddleware_def Let_def split: prod.split outcome.split)
next
  fix x w st
  assume "next r ws = (Panicked x, (w, st))"
  then show "recoveryMiddleware e next r ws =
        (Returned,
         ((case status w of
             None \<Rightarrow> w\<lparr>status := Some 500, body := body w @ ''Internal Server Error'' @ [NL]\<rparr>
           | Some code \<Rightarrow>
               if bodyAllowedForStatus code
               then w\<lparr>body := body w @ ''Internal Server Error'' @ [NL]\<rparr>
               else w),
          st\<lparr>trace := trace st @
             [Logged (with_newline
                (''PANIC RECOVERED: '' @ x @ [NL] @ ''STACK TRACE:'' @ [NL] @ snapshot e))]\<rparr>))"
    by (simp add: recoveryMiddleware_def Let_def logger_Printf_def log_Output_def http_Error_cases)
next
  assume "\<forall>x. fst (next r ws) \<noteq> Panicked x"
  then show "recoveryMiddleware e next r ws = next r ws"
    by (cases "next r ws") (auto simp add: recoveryMiddleware_def split: outcome.split)
qed

theorem recoveryMiddleware_contains_faults_witness:
  "panic_handler (request_for ''GET'' ''/panic'') (new_response, st0) =
     (Panicked ''Something went wrong!'', (new_response, st0)) \<and>
   recoveryMiddleware (env0 0) panic_handler (request_for ''GET'' ''/panic'') (new_response, st0) =
     (Returned,
      (\<lparr>status = Some 500, body = ''Internal Server Error'' @ [NL]\<rparr>,
       \<lparr>clock = 0,
        trace = [Logged (''PANIC RECOVERED: Something went wrong!'' @ [NL] @ ''STACK TRACE:'' @ [NL]
                   @ ''goroutine 1 [running]:'' @ [NL])]\<rparr>)) \<and>
   late_panic_handler (request_for ''GET'' ''/'') (new_response, st0) =
     (Panicked ''lost the database'', (\<lparr>status = Some 201, body = ''partial''\<rparr>, st0)) \<and>
   recoveryMiddleware (env0 0) late_panic_handler (request_for ''GET'' ''/'') (new_response, st0) =
     (Returned,
      (\<lparr>status = Some 201, body = ''partial'' @ ''Internal Server Error'' @ [NL]\<rparr>,
       \<lparr>clock = 0,
        trace = [Logged (''PANIC RECOVERED: lost the database'' @ [NL] @ ''STACK TRACE:'' @ [NL]
                   @ ''goroutine 1 [running]:'' @ [NL])]\<rparr>)) \<and>
   (\<forall>x. fst (root_handler (request_for ''GET'' ''/'') (new_response, st0)) \<noteq> Panicked x) \<and>
   recoveryMiddleware (env0 0) root_handler (request_for ''GET'' ''/'') (new_response, st0) =
     (Returned, (\<lparr>status = Some 200, body = ''Hello, World!'' @ [NL]\<rparr>, st0))"
proof -
  let ?rp = "request_for ''GET'' ''/panic''"
  let ?rr = "request_for ''GET'' ''/''"
  let ?entry = "\<lambda>x. st0\<lparr>trace := trace st0 @
           [Logged (with_newline
              (''PANIC RECOVERED: '' @ x @ [NL] @ ''STACK TRACE:'' @ [NL] @ snapshot (env0 0)))]\<rparr>"
  have p: "panic_handler ?rp (new_response, st0) =
      (Panicked ''Something went wrong!'', (new_response, st0))"
    by (simp add: panic_handler_def)
  have lp: "late_panic_handler ?rr (new_response, st0) =
      (Panicked ''lost the database'', (\<lparr>status = Some 201, body = ''partial''\<rparr>, st0))"
    by (rule late_panic_fresh)
  have q: "\<forall>x. fst (root_handler ?rr (new_response, st0)) \<noteq> Panicked x"
    by (simp add: hello_fresh)
  have a: "recoveryMiddleware (env0 0) panic_handler ?rp (new_response, st0) =
      (Returned,
       ((case status new_response of
           None \<Rightarrow>
             new_response\<lparr>status := Some 500,
               body := body new_response @ ''Internal Server Error'' @ [NL]\<rparr>
         | Some code \<Rightarrow>
             if bodyAllowedForStatus code
             then new_response\<lparr>body := body new_response @ ''Internal Server Error'' @ [NL]\<rparr>
             else new_response),
        ?entry ''Something went wrong!''))"
    using recoveryMiddleware_contains_faults [of "env0 0" panic_handler ?rp "(new_response, st0)"] p
    by blast
  have b: "recoveryMiddleware (env0 0) late_panic_handler ?rr (new_response, st0) =
      (Returned,
       ((case status \<lparr>status = Some 201, body = ''partial''\<rparr> of
           None \<Rightarrow>
             \<lparr>status = Some 201, body = ''partial''\<rparr>\<lparr>status := Some 500,
               body := body \<lparr>status = Some 201, body = ''partial''\<rparr>
                         @ ''Internal Server Error'' @ [NL]\<rparr>
         | Some code \<Rightarrow>
             if bodyAllowedForStatus code
             then \<lparr>status = Some 201, body = ''partial''\<rparr>
                    \<lparr>body := body \<lparr>status = Some 201, body = ''partial''\<rparr>
                              @ ''Internal Server Error'' @ [NL]\<rparr>
             else \<lparr>status = Some 201, body = ''partial''\<rparr>),
        ?entry ''lost the database''))"
    using recoveryMiddleware_contains_faults
            [of "env0 0" late_panic_handler ?rr "(new_response, st0)"] lp
    by blast
  have c: "recoveryMiddleware (env0 0) root_handler ?rr (new_response, st0) =
      root_handler ?rr (new_response, st0)"
    using recoveryMiddleware_contains_faults [of "env0 0" root_handler ?rr "(new_response, st0)"] q
    by blast
  have l: "?entry x =
      \<lparr>clock = 0,
        trace = [Logged (''PANIC RECOVERED: '' @ x @ [NL] @ ''STACK TRACE:'' @ [NL]
                   @ ''goroutine 1 [running]:'' @ [NL])]\<rparr>" for x
    by (simp add: st0_def env0_def with_newline_def)
  have a2: "recoveryMiddleware (env0 0) panic_handler ?rp (new_response, st0) =
     (Returned,
      (\<lparr>status = Some 500, body = ''Internal Server Error'' @ [NL]\<rparr>,
       \<lparr>clock = 0,
        trace = [Logged (''PANIC RECOVERED: Something went wrong!'' @ [NL] @ ''STACK TRACE:'' @ [NL]
                   @ ''goroutine 1 [running]:'' @ [NL])]\<rparr>))"
    unfolding a l by (simp add: new_response_def)
  have b2: "recoveryMiddleware (env0 0) late_panic_handler ?rr (new_response, st0) =
     (Returned,
      (\<lparr>status = Some 201, body = ''partial'' @ ''Internal Server Error'' @ [NL]\<rparr>,
       \<lparr>clock = 0,
        trace = [Logged (''PANIC RECOVERED: lost the database'' @ [NL] @ ''STACK TRACE:'' @ [NL]
                   @ ''goroutine 1 [running]:'' @ [NL])]\<rparr>))"
    unfolding b l by (simp add: bodyAllowedForStatus_def)
  have c2: "recoveryMiddleware (env0 0) root_handler ?rr (new_response, st0) =
     (Returned, (\<lparr>status = Some 200, body = ''Hello, World!'' @ [NL]\<rparr>, st0))"
    using c by (simp only: hello_fresh)
  show ?thesis
    by (intro conjI p a2 lp b2 q c2)
qed

section \<open>The two routes\<close>

lemma cleanPath_panic: "cleanPath ''/panic'' = ''/panic''"
  by code_simp

lemma cleanPath_root: "cleanPath ''/'' = ''/''"
  by code_simp

lemma root_says_hello:
  assumes "URL_Path r = ''/''" and "RequestURI r \<noteq> ''*''" and "Method r \<noteq> ''HEAD''"
  shows "respond e r = (200, ''Hello, World!'' @ [NL])"
proof -
  have c: "cleanPath (URL_Path r) = URL_Path r"
    using assms(1) by (simp add: cleanPath_root)
  have "mux_ServeHTTP e mux r (new_response, st0) = root_handler r (new_response, st0)"
    using assms by (simp add: mux_ServeHTTP_def mux_Handler_canonical [OF c])
  then show ?thesis
    using assms(3)
    by (simp add: respond_def server_passes [OF assms(2)] handler_def recoveryMiddleware_def
        hello_fresh client_response_def)
qed

text \<open>
  Claim C9. A request for the path \<^verbatim>\<open>/\<close> is answered by the root handler: the response
  has status 200 and the body \<^verbatim>\<open>Hello, World!\<close> followed by a newline, and that is what
  the client of a GET (of any method but HEAD) is sent.
\<close>

theorem root_route_says_hello:
  assumes "URL_Path r = ''/''" and "RequestURI r \<noteq> ''*''" and "Method r \<noteq> ''HEAD''"
  shows "handler e r (new_response, st) =
           (Returned, (\<lparr>status = Some 200, body = ''Hello, World!'' @ [NL]\<rparr>, st)) \<and>
         respond e r = (200, ''Hello, World!'' @ [NL])"
proof -
  have c: "cleanPath (URL_Path r) = URL_Path r"
    using assms(1) by (simp add: cleanPath_root)
  have m: "mux_ServeHTTP e mux r (new_response, s) = root_handler r (new_response, s)" for s
    using assms by (simp add: mux_ServeHTTP_def mux_Handler_canonical [OF c])
  have h: "handler e r (new_response, s) =
           (Returned, (\<lparr>status = Some 200, body = ''Hello, World!'' @ [NL]\<rparr>, s))" for s
    by (simp add: handler_def recoveryMiddleware_def m hello_fresh)
  have "respond e r = (200, ''Hello, World!'' @ [NL])"
    using assms(3) by (simp add: respond_def server_passes [OF assms(2)] h client_response_def)
  with h show ?thesis by simp
qed

theorem root_route_says_hello_witness:
  "URL_Path (request_for ''GET'' ''/'') = ''/'' \<and>
   RequestURI (request_for ''GET'' ''/'') \<noteq> ''*'' \<and>
   Method (request_for ''GET'' ''/'') \<noteq> ''HEAD'' \<and>
   handler (env0 0) (request_for ''GET'' ''/'') (new_response, st0) =
     (Returned, (\<lparr>status = Some 200, body = ''Hello, World!'' @ [NL]\<rparr>, st0)) \<and>
   respond (env0 0) (request_for ''GET'' ''/'') = (200, ''Hello, World!'' @ [NL])"
proof -
  have a: "URL_Path (request_for ''GET'' ''/'') = ''/''"
    by (simp add: request_for_def)
  have b: "RequestURI (request_for ''GET'' ''/'') \<noteq> ''*''"
    by (simp add: request_for_def)
  have c: "Method (request_for ''GET'' ''/'') \<noteq> ''HEAD''"
    by (simp add: request_for_def)
  show ?thesis
    using a b c root_route_says_hello [OF a b c, of "env0 0" st0] by blast
qed

text \<open>
  Claim C4. A request for the path \<^verbatim>\<open>/panic\<close> makes its handler panic; the middleware
  recovers: the handler of the server returns, the response has status 500 and the body
  \<^verbatim>\<open>Internal Server Error\<close> followed by a newline, and the log gains one entry that
  begins with \<^verbatim>\<open>PANIC RECOVERED\<close> and carries the snapshot of the stacks. The server
  goes on: in any sequence of requests, the one for \<^verbatim>\<open>/panic\<close> gets exactly this one
  response, and every request before and after it gets the response it would get on
  its own.
\<close>

theorem panic_route_is_contained:
  assumes "URL_Path r = ''/panic''" and "RequestURI r \<noteq> ''*''" and "Method r \<noteq> ''HEAD''"
  shows "handler e r (new_response, st) =
           (Returned,
            (\<lparr>status = Some 500, body = ''Internal Server Error'' @ [NL]\<rparr>,
             st\<lparr>trace := trace st @
                [Logged (with_newline
                   (''PANIC RECOVERED: Something went wrong!'' @ [NL] @ ''STACK TRACE:'' @ [NL]
                      @ snapshot e))]\<rparr>)) \<and>
         fst (serve (handler e) (before @ r # after) st) =
           map (\<lambda>q. Some (respond e q)) before
           @ Some (500, ''Internal Server Error'' @ [NL])
           # map (\<lambda>q. Some (respond e q)) after"
proof -
  have c: "cleanPath (URL_Path r) = URL_Path r"
    using assms(1) by (simp add: cleanPath_panic)
  have m: "mux_ServeHTTP e mux r ws = panic_handler r ws" for ws
    using assms by (simp add: mux_ServeHTTP_def mux_Handler_canonical [OF c])
  have w: "http_Error ''Internal Server Error'' StatusInternalServerError new_response =
      \<lparr>status = Some 500, body = ''Internal Server Error'' @ [NL]\<rparr>"
    by (simp add: http_Error_fresh new_response_def)
  have h: "handler e r (new_response, st) =
           (Returned,
            (\<lparr>status = Some 500, body = ''Internal Server Error'' @ [NL]\<rparr>,
             st\<lparr>trace := trace st @
                [Logged (with_newline
                   (''PANIC RECOVERED: Something went wrong!'' @ [NL] @ ''STACK TRACE:'' @ [NL]
                      @ snapshot e))]\<rparr>))" for st
    by (simp add: handler_def recoveryMiddleware_def m panic_handler_def w logger_Printf_def
        log_Output_def)
  have "respond e r = (500, ''Internal Server Error'' @ [NL])"
    using assms(3) by (simp add: respond_def server_passes [OF assms(2)] h client_response_def)
  then have "fst (serve (handler e) (before @ r # after) st) =
           map (\<lambda>q. Some (respond e q)) before
           @ Some (500, ''Internal Server Error'' @ [NL])
           # map (\<lambda>q. Some (respond e q)) after"
    by (simp add: serve_handler)
  with h show ?thesis by blast
qed

theorem panic_route_is_contained_witness:
  "URL_Path (request_for ''GET'' ''/panic'') = ''/panic'' \<and>
   RequestURI (request_for ''GET'' ''/panic'') \<noteq> ''*'' \<and>
   Method (request_for ''GET'' ''/panic'') \<noteq> ''HEAD'' \<and>
   handler (env0 0) (request_for ''GET'' ''/panic'') (new_response, st0) =
     (Returned,
      (\<lparr>status = Some 500, body = ''Internal Server Error'' @ [NL]\<rparr>,
       \<lparr>clock = 0,
        trace = [Logged (''PANIC RECOVERED: Something went wrong!'' @ [NL] @ ''STACK TRACE:'' @ [NL]
                   @ ''goroutine 1 [running]:'' @ [NL])]\<rparr>)) \<and>
   fst (serve (handler (env0 0))
          ([request_for ''GET'' ''/''] @ request_for ''GET'' ''/panic''
             # [request_for ''GET'' ''/panic'', request_for ''GET'' ''/'']) st0) =
     [Some (200, ''Hello, World!'' @ [NL]),
      Some (500, ''Internal Server Error'' @ [NL]),
      Some (500, ''Internal Server Error'' @ [NL]),
      Some (200, ''Hello, World!'' @ [NL])]"
proof -
  let ?p = "request_for ''GET'' ''/panic''"
  let ?r = "request_for ''GET'' ''/''"
  have a: "URL_Path ?p = ''/panic''"
    by (simp add: request_for_def)
  have b: "RequestURI ?p \<noteq> ''*''"
    by (simp add: request_for_def)
  have a': "URL_Path ?r = ''/''" and b': "RequestURI ?r \<noteq> ''*''"
    and c: "Method ?p \<noteq> ''HEAD''" and c': "Method ?r \<noteq> ''HEAD''"
    by (simp_all add: request_for_def)
  have l: "st0\<lparr>trace := trace st0 @
           [Logged (with_newline
              (''PANIC RECOVERED: Something went wrong!'' @ [NL] @ ''STACK TRACE:'' @ [NL]
                 @ snapshot (env0 0)))]\<rparr> =
      \<lparr>clock = 0,
        trace = [Logged (''PANIC RECOVERED: Something went wrong!'' @ [NL] @ ''STACK TRACE:'' @ [NL]
                   @ ''goroutine 1 [running]:'' @ [NL])]\<rparr>"
    by (simp add: st0_def env0_def with_newline_def)
  have rp: "respond (env0 0) ?p = (500, ''Internal Server Error'' @ [NL])"
    using panic_route_is_contained [OF a b c, of "env0 0" st0 "[]" "[]"] c
    by (simp add: respond_def server_passes [OF b] client_response_def)
  have rr: "respond (env0 0) ?r = (200, ''Hello, World!'' @ [NL])"
    by (rule root_says_hello [OF a' b' c'])
  have h: "handler (env0 0) ?p (new_response, st0) =
     (Returned,
      (\<lparr>status = Some 500, body = ''Internal Server Error'' @ [NL]\<rparr>,
       \<lparr>clock = 0,
        trace = [Logged (''PANIC RECOVERED: Something went wrong!'' @ [NL] @ ''STACK TRACE:'' @ [NL]
                   @ ''goroutine 1 [running]:'' @ [NL])]\<rparr>))"
    using panic_route_is_contained [OF a b c, of "env0 0" st0 "[]" "[]"] by (simp only: l)
  have s: "fst (serve (handler (env0 0)) ([?r] @ ?p # [?p, ?r]) st0) =
     [Some (200, ''Hello, World!'' @ [NL]),
      Some (500, ''Internal Server Error'' @ [NL]),
      Some (500, ''Internal Server Error'' @ [NL]),
      Some (200, ''Hello, World!'' @ [NL])]"
    using panic_route_is_contained [OF a b c, of "env0 0" st0 "[?r]" "[?p, ?r]"]
    by (simp add: rp rr del: serve.simps)
  show ?thesis
    by (intro conjI a b c h s)
qed




section \<open>The shutdown sequence\<close>

lemma with_newline_line [simp]: "with_newline (msg @ [NL]) = msg @ [NL]"
  by (simp add: with_newline_def)

lemma logger_Println_trace:
  "logger_Println msg st = st\<lparr>trace := trace st @ [Logged (msg @ [NL])]\<rparr>"
  unfolding logger_Println_def log_Output_def with_newline_line ..

lemma cleanup_result:
  "cleanup st =
     (Returned,
      \<lparr>clock = clock st + 2 * Second,
       trace = trace st @
         [Logged (''Cleaning up resources (DB, caches, etc.)...'' @ [NL]),
          Slept (2 * Second),
          Logged (''Cleanup complete. Server shutting down.'' @ [NL])]\<rparr>)"
  by (simp add: cleanup_def logger_Println_trace time_Sleep_def Let_def)

lemma main_shutdown_drained:
  assumes "drain e (clock st + 2 * Second) (clock st + 5 * Second) = (None, took)"
  shows "main_shutdown e cleanup st =
     (Returned,
      \<lparr>clock = clock st + 2 * Second + took,
       trace = trace st @
         [Logged (''Shutdown signal received. Cleaning up...'' @ [NL]),
          CtxCreated (clock st + 5 * Second),
          Logged (''Cleaning up resources (DB, caches, etc.)...'' @ [NL]),
          Slept (2 * Second),
          Logged (''Cleanup complete. Server shutting down.'' @ [NL]),
          DrainCalled (clock st + 2 * Second) (clock st + 5 * Second),
          Logged (''Server exited gracefully.'' @ [NL]),
          CtxCancelled]\<rparr>)"
  using assms
  by (simp add: main_shutdown_def main_guarded_def cleanup_result logger_Println_trace
      context_WithTimeout_def server_Shutdown_def cancel_def Let_def)

lemma main_shutdown_failed:
  assumes "drain e (clock st + 2 * Second) (clock st + 5 * Second) = (Some err, took)"
  shows "main_shutdown e cleanup st =
     (Exited 1,
      \<lparr>clock = clock st + 2 * Second + took,
       trace = trace st @
         [Logged (''Shutdown signal received. Cleaning up...'' @ [NL]),
          CtxCreated (clock st + 5 * Second),
          Logged (''Cleaning up resources (DB, caches, etc.)...'' @ [NL]),
          Slept (2 * Second),
          Logged (''Cleanup complete. Server shutting down.'' @ [NL]),
          DrainCalled (clock st + 2 * Second) (clock st + 5 * Second),
          Logged (with_newline (''Server shutdown failed: '' @ err))]\<rparr>)"
  using assms
  by (simp add: main_shutdown_def main_guarded_def cleanup_result logger_Println_trace logger_Fatalf_def
      log_Output_def context_WithTimeout_def server_Shutdown_def cancel_def Let_def)

lemma logs_append [simp]: "logs (xs @ ys) = logs xs @ logs ys"
  by (induction xs rule: logs.induct) simp_all

lemma drain_calls_append [simp]: "drain_calls (xs @ ys) = drain_calls xs @ drain_calls ys"
  by (induction xs rule: drain_calls.induct) simp_all

lemma sends_append [simp]: "sends (xs @ ys) = sends xs @ sends ys"
  by (induction xs rule: sends.induct) simp_all

lemma recvs_append [simp]: "recvs (xs @ ys) = recvs xs @ recvs ys"
  by (induction xs rule: recvs.induct) simp_all

text \<open>
  Claim C2, as stated: a fault raised during cleanup is caught and logged, and the
  drain attempt is still made. The second half fails: when the cleanup step panics,
  control leaves \<^verbatim>\<open>main\<close> through its deferred functions, the call of
  \<^verbatim>\<open>server.Shutdown\<close> is never reached, and \<^verbatim>\<open>main\<close> returns. With a cleanup that
  panics half way, the trace has no drain call.
\<close>

theorem cleanup_fault_skips_drain:
  "fst (failing_cleanup st0) = Panicked ''connection pool already closed'' \<and>
   fst (main_shutdown (env0 0) failing_cleanup st0) = Returned \<and>
   drain_calls (trace (snd (main_shutdown (env0 0) failing_cleanup st0))) = [] \<and>
   trace (snd (main_shutdown (env0 0) failing_cleanup st0)) =
     [Logged (''Shutdown signal received. Cleaning up...'' @ [NL]),
      CtxCreated (5 * Second),
      Logged (''Cleaning up resources (DB, caches, etc.)...'' @ [NL]),
      Logged (''PANIC DURING SHUTDOWN: connection pool already closed'' @ [NL]
                @ ''STACK TRACE:'' @ [NL] @ ''goroutine 1 [running]:'' @ [NL]),
      CtxCancelled]"
  by (simp add: main_shutdown_def main_guarded_def failing_cleanup_def logger_Println_trace
      logger_Printf_def log_Output_def with_newline_def context_WithTimeout_def cancel_def
      st0_def env0_def)


text \<open>
  Claim C2, amended. When the cleanup step panics with a value, the deferred function
  of \<^verbatim>\<open>main\<close> recovers: it logs one entry that begins with \<^verbatim>\<open>PANIC DURING SHUTDOWN\<close> and
  carries the value and the snapshot of the stacks; then the token is cancelled and
  \<^verbatim>\<open>main\<close> returns, so the process exits with status 0. No drain call is made and the
  line \<^verbatim>\<open>Server exited gracefully.\<close> is not logged: the trace gains nothing but the
  logged entry and the cancellation.
\<close>

theorem cleanup_fault_is_logged:
  assumes "cleanup_step st2 = (Panicked x, st3)"
  shows "main_guarded e cleanup_step ctx st2 =
           (Returned,
            st3\<lparr>trace := trace st3 @
               [Logged (with_newline
                  (''PANIC DURING SHUTDOWN: '' @ x @ [NL] @ ''STACK TRACE:'' @ [NL] @ snapshot e)),
                CtxCancelled]\<rparr>) \<and>
         exit_code (fst (main_guarded e cleanup_step ctx st2)) = 0 \<and>
         drain_calls (trace (snd (main_guarded e cleanup_step ctx st2))) = drain_calls (trace st3) \<and>
         logs (trace (snd (main_guarded e cleanup_step ctx st2))) =
           logs (trace st3) @
             [with_newline
                (''PANIC DURING SHUTDOWN: '' @ x @ [NL] @ ''STACK TRACE:'' @ [NL] @ snapshot e)]"
  using assms
  by (simp add: main_guarded_def logger_Printf_def log_Output_def cancel_def)

theorem cleanup_fault_is_logged_witness:
  "failing_cleanup st0 =
     (Panicked ''connection pool already closed'',
      \<lparr>clock = 0, trace = [Logged (''Cleaning up resources (DB, caches, etc.)...'' @ [NL])]\<rparr>) \<and>
   main_guarded (env0 0) failing_cleanup (5 * Second) st0 =
     (Returned,
      \<lparr>clock = 0,
       trace =
         [Logged (''Cleaning up resources (DB, caches, etc.)...'' @ [NL]),
          Logged (''PANIC DURING SHUTDOWN: connection pool already closed'' @ [NL]
                    @ ''STACK TRACE:'' @ [NL] @ ''goroutine 1 [running]:'' @ [NL]),
          CtxCancelled]\<rparr>) \<and>
   exit_code (fst (main_guarded (env0 0) failing_cleanup (5 * Second) st0)) = 0 \<and>
   drain_calls (trace (snd (main_guarded (env0 0) failing_cleanup (5 * Second) st0))) = []"
proof -
  have f: "failing_cleanup st0 =
     (Panicked ''connection pool already closed'',
      \<lparr>clock = 0, trace = [Logged (''Cleaning up resources (DB, caches, etc.)...'' @ [NL])]\<rparr>)"
    by (simp add: failing_cleanup_def logger_Println_trace st0_def)
  show ?thesis
    using cleanup_fault_is_logged
            [where cleanup_step = failing_cleanup and ?st2.0 = st0 and e = "env0 0"
               and ctx = "5 * Second", OF f]
    by (simp add: f env0_def with_newline_def)
qed


lemma main_shutdown_prefix:
  "\<exists>tl. trace (snd (main_shutdown e cleanup st)) =
     trace st @
       [Logged (''Shutdown signal received. Cleaning up...'' @ [NL]),
        CtxCreated (clock st + 5 * Second),
        Logged (''Cleaning up resources (DB, caches, etc.)...'' @ [NL]),
        Slept (2 * Second),
        Logged (''Cleanup complete. Server shutting down.'' @ [NL]),
        DrainCalled (clock st + 2 * Second) (clock st + 5 * Second)] @ tl"
proof (cases "drain e (clock st + 2 * Second) (clock st + 5 * Second)")
  case (Pair r took)
  show ?thesis
  proof (cases r)
    case None
    then show ?thesis
      using main_shutdown_drained [of e st took] Pair by simp
  next
    case (Some err)
    then show ?thesis
      using main_shutdown_failed [of e st err took] Pair by simp
  qed
qed

lemma failure_line_is_not_graceful:
  "with_newline (''Server shutdown failed: '' @ err) \<noteq> ''Server exited gracefully.'' @ [NL]"
  by (simp add: with_newline_def)

text \<open>
  Claim C3. The deadline token is made right after the signal is received, and its
  deadline is the time of that moment plus five seconds. The cleanup step runs next,
  with the token already made; the drain is called after it, at the time the cleanup
  step has left, with that same deadline. So the window handed to the drain is five
  seconds less the time the cleanup step took, for any cleanup step that returns. With
  the cleanup of this program, which sleeps two seconds, the token is made, then the
  cleanup logs, sleeps and logs, then the drain is called two seconds after the signal
  with the deadline five seconds after it.
\<close>

theorem drain_window_runs_from_signal_receipt:
  assumes "cleanup_step
             (st\<lparr>trace := trace st @
                [Logged (''Shutdown signal received. Cleaning up...'' @ [NL]),
                 CtxCreated (clock st + 5 * Second)]\<rparr>) = (Returned, st3)"
  shows "context_WithTimeout (5 * Second)
           (logger_Println ''Shutdown signal received. Cleaning up...'' st) =
           (clock st + 5 * Second,
            st\<lparr>trace := trace st @
               [Logged (''Shutdown signal received. Cleaning up...'' @ [NL]),
                CtxCreated (clock st + 5 * Second)]\<rparr>) \<and>
         drain_calls (trace (snd (main_shutdown e cleanup_step st))) =
           drain_calls (trace st3) @ [(clock st3, clock st + 5 * Second)] \<and>
         map (\<lambda>(now, dl). dl - now) (drain_calls (trace (snd (main_shutdown e cleanup_step st)))) =
           map (\<lambda>(now, dl). dl - now) (drain_calls (trace st3))
           @ [5 * Second - (clock st3 - clock st)] \<and>
         (\<exists>tl. trace (snd (main_shutdown e cleanup st)) =
            trace st @
              [Logged (''Shutdown signal received. Cleaning up...'' @ [NL]),
               CtxCreated (clock st + 5 * Second),
               Logged (''Cleaning up resources (DB, caches, etc.)...'' @ [NL]),
               Slept (2 * Second),
               Logged (''Cleanup complete. Server shutting down.'' @ [NL]),
               DrainCalled (clock st + 2 * Second) (clock st + 5 * Second)] @ tl)"
proof -
  let ?st2 = "st\<lparr>trace := trace st @
                [Logged (''Shutdown signal received. Cleaning up...'' @ [NL]),
                 CtxCreated (clock st + 5 * Second)]\<rparr>"
  have tok: "context_WithTimeout (5 * Second)
           (logger_Println ''Shutdown signal received. Cleaning up...'' st) =
           (clock st + 5 * Second, ?st2)"
    by (simp add: context_WithTimeout_def logger_Println_trace)
  have calls: "drain_calls (trace (snd (main_shutdown e cleanup_step st))) =
           drain_calls (trace st3) @ [(clock st3, clock st + 5 * Second)]"
    unfolding main_shutdown_def Let_def tok
    using assms
    by (cases "drain e (clock st3) (clock st + 5 * Second)")
      (auto simp add: main_guarded_def server_Shutdown_def logger_Fatalf_def log_Output_def
        logger_Println_trace cancel_def split: option.split)
  have window: "map (\<lambda>(now, dl). dl - now)
        (drain_calls (trace (snd (main_shutdown e cleanup_step st)))) =
      map (\<lambda>(now, dl). dl - now) (drain_calls (trace st3))
      @ [5 * Second - (clock st3 - clock st)]"
    by (simp add: calls)
  show ?thesis
    using tok calls window main_shutdown_prefix [of e st] by blast
qed

theorem drain_window_runs_from_signal_receipt_witness:
  "cleanup
     (st0\<lparr>trace := trace st0 @
        [Logged (''Shutdown signal received. Cleaning up...'' @ [NL]),
         CtxCreated (clock st0 + 5 * Second)]\<rparr>) =
     (Returned,
      \<lparr>clock = 2 * Second,
       trace =
         [Logged (''Shutdown signal received. Cleaning up...'' @ [NL]),
          CtxCreated (5 * Second),
          Logged (''Cleaning up resources (DB, caches, etc.)...'' @ [NL]),
          Slept (2 * Second),
          Logged (''Cleanup complete. Server shutting down.'' @ [NL])]\<rparr>) \<and>
   drain_calls (trace (snd (main_shutdown (env0 0) cleanup st0))) = [(2 * Second, 5 * Second)] \<and>
   map (\<lambda>(now, dl). dl - now) (drain_calls (trace (snd (main_shutdown (env0 0) cleanup st0)))) =
     [3 * Second]"
proof -
  let ?st3 = "\<lparr>clock = 2 * Second,
       trace =
         [Logged (''Shutdown signal received. Cleaning up...'' @ [NL]),
          CtxCreated (5 * Second),
          Logged (''Cleaning up resources (DB, caches, etc.)...'' @ [NL]),
          Slept (2 * Second),
          Logged (''Cleanup complete. Server shutting down.'' @ [NL])]\<rparr>"
  have c: "cleanup
     (st0\<lparr>trace := trace st0 @
        [Logged (''Shutdown signal received. Cleaning up...'' @ [NL]),
         CtxCreated (clock st0 + 5 * Second)]\<rparr>) = (Returned, ?st3)"
    by (simp add: cleanup_result st0_def)
  have z: "clock st0 = 0"
    by (simp add: st0_def)
  note t = drain_window_runs_from_signal_receipt
            [where cleanup_step = cleanup and st = st0 and e = "env0 0", OF c]
  from t have "drain_calls (trace (snd (main_shutdown (env0 0) cleanup st0))) =
      drain_calls (trace ?st3) @ [(clock ?st3, clock st0 + 5 * Second)]"
    by blast
  then have calls: "drain_calls (trace (snd (main_shutdown (env0 0) cleanup st0))) =
      [(2 * Second, 5 * Second)]"
    by (simp add: z)
  have window: "map (\<lambda>(now, dl). dl - now)
      (drain_calls (trace (snd (main_shutdown (env0 0) cleanup st0)))) = [3 * Second]"
    by (simp add: calls)
  show ?thesis
    by (intro conjI c calls window)
qed

text \<open>
  Claim C5. When the drain reports an error, \<^verbatim>\<open>main\<close> logs
  \<^verbatim>\<open>Server shutdown failed:\<close> with the error and the process exits with status 1: the
  drain was called once, and the line \<^verbatim>\<open>Server exited gracefully.\<close> is not logged. When
  the drain reports no error, that line is logged last, \<^verbatim>\<open>main\<close> returns and the process
  exits with status 0.
\<close>

theorem drain_failure_is_fatal:
  "(\<forall>err took. drain e (clock st + 2 * Second) (clock st + 5 * Second) = (Some err, took) \<longrightarrow>
      fst (main_shutdown e cleanup st) = Exited 1 \<and>
      exit_code (fst (main_shutdown e cleanup st)) = 1 \<and>
      logs (trace (snd (main_shutdown e cleanup st))) =
        logs (trace st) @
          [''Shutdown signal received. Cleaning up...'' @ [NL],
           ''Cleaning up resources (DB, caches, etc.)...'' @ [NL],
           ''Cleanup complete. Server shutting down.'' @ [NL],
           with_newline (''Server shutdown failed: '' @ err)] \<and>
      with_newline (''Server shutdown failed: '' @ err) \<noteq> ''Server exited gracefully.'' @ [NL] \<and>
      drain_calls (trace (snd (main_shutdown e cleanup st))) =
        drain_calls (trace st) @ [(clock st + 2 * Second, clock st + 5 * Second)]) \<and>
   (\<forall>took. drain e (clock st + 2 * Second) (clock st + 5 * Second) = (None, took) \<longrightarrow>
      fst (main_shutdown e cleanup st) = Returned \<and>
      exit_code (fst (main_shutdown e cleanup st)) = 0 \<and>
      logs (trace (snd (main_shutdown e cleanup st))) =
        logs (trace st) @
          [''Shutdown signal received. Cleaning up...'' @ [NL],
           ''Cleaning up resources (DB, caches, etc.)...'' @ [NL],
           ''Cleanup complete. Server shutting down.'' @ [NL],
           ''Server exited gracefully.'' @ [NL]] \<and>
      drain_calls (trace (snd (main_shutdown e cleanup st))) =
        drain_calls (trace st) @ [(clock st + 2 * Second, clock st + 5 * Second)])"
proof (intro conjI allI impI)
  fix err took
  assume a: "drain e (clock st + 2 * Second) (clock st + 5 * Second) = (Some err, took)"
  note r = main_shutdown_failed [OF a]
  show "fst (main_shutdown e cleanup st) = Exited 1"
    by (simp add: r)
  show "exit_code (fst (main_shutdown e cleanup st)) = 1"
    by (simp add: r)
  show "logs (trace (snd (main_shutdown e cleanup st))) =
        logs (trace st) @
          [''Shutdown signal received. Cleaning up...'' @ [NL],
           ''Cleaning up resources (DB, caches, etc.)...'' @ [NL],
           ''Cleanup complete. Server shutting down.'' @ [NL],
           with_newline (''Server shutdown failed: '' @ err)]"
    by (simp add: r)
  show "with_newline (''Server shutdown failed: '' @ err) \<noteq> ''Server exited gracefully.'' @ [NL]"
    by (rule failure_line_is_not_graceful)
  show "drain_calls (trace (snd (main_shutdown e cleanup st))) =
        drain_calls (trace st) @ [(clock st + 2 * Second, clock st + 5 * Second)]"
    by (simp add: r)
next
  fix took
  assume a: "drain e (clock st + 2 * Second) (clock st + 5 * Second) = (None, took)"
  note r = main_shutdown_drained [OF a]
  show "fst (main_shutdown e cleanup st) = Returned"
    by (simp add: r)
  show "exit_code (fst (main_shutdown e cleanup st)) = 0"
    by (simp add: r)
  show "logs (trace (snd (main_shutdown e cleanup st))) =
        logs (trace st) @
          [''Shutdown signal received. Cleaning up...'' @ [NL],
           ''Cleaning up resources (DB, caches, etc.)...'' @ [NL],
           ''Cleanup complete. Server shutting down.'' @ [NL],
           ''Server exited gracefully.'' @ [NL]]"
    by (simp add: r)
  show "drain_calls (trace (snd (main_shutdown e cleanup st))) =
        drain_calls (trace st) @ [(clock st + 2 * Second, clock st + 5 * Second)]"
    by (simp add: r)
qed

theorem drain_failure_is_fatal_witness:
  "drain (env0 (4 * Second)) (clock st0 + 2 * Second) (clock st0 + 5 * Second) =
     (Some ''context deadline exceeded'', 3 * Second) \<and>
   fst (main_shutdown (env0 (4 * Second)) cleanup st0) = Exited 1 \<and>
   logs (trace (snd (main_shutdown (env0 (4 * Second)) cleanup st0))) =
     [''Shutdown signal received. Cleaning up...'' @ [NL],
      ''Cleaning up resources (DB, caches, etc.)...'' @ [NL],
      ''Cleanup complete. Server shutting down.'' @ [NL],
      ''Server shutdown failed: context deadline exceeded'' @ [NL]] \<and>
   drain (env0 Second) (clock st0 + 2 * Second) (clock st0 + 5 * Second) = (None, Second) \<and>
   fst (main_shutdown (env0 Second) cleanup st0) = Returned \<and>
   exit_code (fst (main_shutdown (env0 Second) cleanup st0)) = 0 \<and>
   logs (trace (snd (main_shutdown (env0 Second) cleanup st0))) =
     [''Shutdown signal received. Cleaning up...'' @ [NL],
      ''Cleaning up resources (DB, caches, etc.)...'' @ [NL],
      ''Cleanup complete. Server shutting down.'' @ [NL],
      ''Server exited gracefully.'' @ [NL]]"
proof -
  have f: "drain (env0 (4 * Second)) (clock st0 + 2 * Second) (clock st0 + 5 * Second) =
     (Some ''context deadline exceeded'', 3 * Second)"
    by (simp add: env0_def drain_needing_def st0_def Second_def)
  have g: "drain (env0 Second) (clock st0 + 2 * Second) (clock st0 + 5 * Second) = (None, Second)"
    by (simp add: env0_def drain_needing_def st0_def Second_def)
  have n: "logs (trace st0) = []"
    by (simp add: st0_def)
  have w: "with_newline (''Server shutdown failed: '' @ ''context deadline exceeded'') =
      ''Server shutdown failed: context deadline exceeded'' @ [NL]"
    by (simp add: with_newline_def)
  note a = drain_failure_is_fatal [of "env0 (4 * Second)" st0]
  note b = drain_failure_is_fatal [of "env0 Second" st0]
  have a1: "fst (main_shutdown (env0 (4 * Second)) cleanup st0) = Exited 1"
    using a f by blast
  have "logs (trace (snd (main_shutdown (env0 (4 * Second)) cleanup st0))) =
        logs (trace st0) @
          [''Shutdown signal received. Cleaning up...'' @ [NL],
           ''Cleaning up resources (DB, caches, etc.)...'' @ [NL],
           ''Cleanup complete. Server shutting down.'' @ [NL],
           with_newline (''Server shutdown failed: '' @ ''context deadline exceeded'')]"
    using a f by blast
  then have a2: "logs (trace (snd (main_shutdown (env0 (4 * Second)) cleanup st0))) =
     [''Shutdown signal received. Cleaning up...'' @ [NL],
      ''Cleaning up resources (DB, caches, etc.)...'' @ [NL],
      ''Cleanup complete. Server shutting down.'' @ [NL],
      ''Server shutdown failed: context deadline exceeded'' @ [NL]]"
    unfolding w n by simp
  have b1: "fst (main_shutdown (env0 Second) cleanup st0) = Returned"
    using b g by blast
  have b2: "exit_code (fst (main_shutdown (env0 Second) cleanup st0)) = 0"
    using b g by blast
  have "logs (trace (snd (main_shutdown (env0 Second) cleanup st0))) =
        logs (trace st0) @
          [''Shutdown signal received. Cleaning up...'' @ [NL],
           ''Cleaning up resources (DB, caches, etc.)...'' @ [NL],
           ''Cleanup complete. Server shutting down.'' @ [NL],
           ''Server exited gracefully.'' @ [NL]]"
    using b g by blast
  then have b3: "logs (trace (snd (main_shutdown (env0 Second) cleanup st0))) =
     [''Shutdown signal received. Cleaning up...'' @ [NL],
      ''Cleaning up resources (DB, caches, etc.)...'' @ [NL],
      ''Cleanup complete. Server shutting down.'' @ [NL],
      ''Server exited gracefully.'' @ [NL]]"
    unfolding n by simp
  show ?thesis
    by (intro conjI f a1 a2 g b1 b2 b3)
qed

section \<open>The serving goroutine\<close>

text \<open>
  Claim C8. When \<^verbatim>\<open>ListenAndServe\<close> returns an error other than
  \<^verbatim>\<open>http.ErrServerClosed\<close>, the goroutine logs \<^verbatim>\<open>Server error:\<close> with the error and the
  process exits with status 1 at once. When it returns \<^verbatim>\<open>http.ErrServerClosed\<close> (or no
  error), nothing is logged beyond the start line and the goroutine returns.
\<close>

theorem serve_error_is_fatal_unless_closed:
  "serve_goroutine (Some (OtherError msg)) st =
     (Exited 1,
      st\<lparr>trace := trace st @
         [Logged (''Server started on :8080'' @ [NL]),
          Logged (with_newline (''Server error: '' @ msg))]\<rparr>) \<and>
   exit_code (fst (serve_goroutine (Some (OtherError msg)) st)) = 1 \<and>
   serve_goroutine (Some ErrServerClosed) st =
     (Returned, st\<lparr>trace := trace st @ [Logged (''Server started on :8080'' @ [NL])]\<rparr>) \<and>
   serve_goroutine None st =
     (Returned, st\<lparr>trace := trace st @ [Logged (''Server started on :8080'' @ [NL])]\<rparr>)"
  by (simp add: serve_goroutine_def logger_Println_trace logger_Fatalf_def log_Output_def)

theorem serve_error_is_fatal_unless_closed_witness:
  "serve_goroutine (Some (OtherError ''listen tcp :8080: bind: address already in use'')) st0 =
     (Exited 1,
      \<lparr>clock = 0,
       trace =
         [Logged (''Server started on :8080'' @ [NL]),
          Logged (''Server error: listen tcp :8080: bind: address already in use'' @ [NL])]\<rparr>) \<and>
   serve_goroutine (Some ErrServerClosed) st0 =
     (Returned, \<lparr>clock = 0, trace = [Logged (''Server started on :8080'' @ [NL])]\<rparr>)"
proof -
  note t = serve_error_is_fatal_unless_closed
             [of "''listen tcp :8080: bind: address already in use''" st0]
  have w: "with_newline (''Server error: '' @ ''listen tcp :8080: bind: address already in use'') =
      ''Server error: listen tcp :8080: bind: address already in use'' @ [NL]"
    by (simp add: with_newline_def)
  have a: "serve_goroutine (Some (OtherError ''listen tcp :8080: bind: address already in use'')) st0 =
     (Exited 1,
      st0\<lparr>trace := trace st0 @
         [Logged (''Server started on :8080'' @ [NL]),
          Logged (with_newline
            (''Server error: '' @ ''listen tcp :8080: bind: address already in use''))]\<rparr>)"
    using t by blast
  have b: "serve_goroutine (Some ErrServerClosed) st0 =
     (Returned, st0\<lparr>trace := trace st0 @ [Logged (''Server started on :8080'' @ [NL])]\<rparr>)"
    using t by blast
  show ?thesis
    unfolding a b w by (simp add: st0_def)
qed


section \<open>Runs of the main path\<close>

lemma run_snoc: "run e p (sch @ [a]) = step e (run e p sch) a"
  by (simp add: run_def)

lemma run_Nil: "run e p [] = p"
  by (simp add: run_def)

lemma run_Cons: "run e p (a # sch) = run e (step e p a) sch"
  by (simp add: run_def)

lemma invariant_start: "run_invariant e t0 (start t0)"
  by (simp add: run_invariant_def start_def waiting_shape_def)

lemma invariant_deliver_waiting:
  assumes "phase p = Waiting" and "waiting_shape t0 p"
  shows "run_invariant e t0 (deliver e sg p)"
  using assms
  by (auto simp add: run_invariant_def deliver_def waiting_shape_def chan_capacity_def)

lemma invariant_deliver_received:
  assumes "phase p = ShuttingDown" and "received_shape t0 p"
  shows "run_invariant e t0 (deliver e sg p)"
  using assms
  by (auto simp add: run_invariant_def deliver_def received_shape_def chan_capacity_def)

lemma invariant_run_main_waiting:
  assumes "phase p = Waiting" and "waiting_shape t0 p"
  shows "run_invariant e t0 (run_main e p)"
  using assms
  by (auto simp add: run_invariant_def run_main_def waiting_shape_def received_shape_def)

lemma invariant_run_main_received:
  assumes "phase p = ShuttingDown" and "received_shape t0 p"
  shows "run_invariant e t0 (run_main e p)"
proof -
  obtain r st where m: "main_shutdown e cleanup (ps p) = (r, st)"
    by (cases "main_shutdown e cleanup (ps p)")
  have "ended_shape e t0 (exit_code r) (p\<lparr>phase := Ended (exit_code r), ps := st\<rparr>)"
    unfolding ended_shape_def
    using assms(2) m by (intro exI [of _ p]) simp
  then show ?thesis
    using assms(1) m by (simp add: run_invariant_def run_main_def)
qed

lemma invariant_step:
  assumes "run_invariant e t0 p"
  shows "run_invariant e t0 (step e p a)"
proof (cases "phase p")
  case Waiting
  then have w: "waiting_shape t0 p"
    using assms by (simp add: run_invariant_def)
  show ?thesis
    using Waiting invariant_deliver_waiting [OF Waiting w] invariant_run_main_waiting [OF Waiting w]
    by (cases a) (simp_all add: step_def)
next
  case ShuttingDown
  then have w: "received_shape t0 p"
    using assms by (simp add: run_invariant_def)
  show ?thesis
    using ShuttingDown invariant_deliver_received [OF ShuttingDown w]
      invariant_run_main_received [OF ShuttingDown w]
    by (cases a) (simp_all add: step_def)
next
  case (Ended c)
  then show ?thesis using assms by (simp add: step_def)
next
  case (Killed sg)
  then show ?thesis using assms by (simp add: step_def)
qed

lemma invariant_run: "run_invariant e t0 (run e (start t0) sch)"
proof (induction sch rule: rev_induct)
  case Nil
  show ?case by (simp add: run_Nil invariant_start)
next
  case (snoc a sch)
  then show ?case by (simp add: run_snoc invariant_step)
qed

lemma main_shutdown_tail:
  "\<exists>tl. trace (snd (main_shutdown e cleanup st)) = trace st @ tl \<and> sends tl = [] \<and> recvs tl = []"
proof (cases "drain e (clock st + 2 * Second) (clock st + 5 * Second)")
  case (Pair r took)
  show ?thesis
  proof (cases r)
    case None
    then show ?thesis
      using main_shutdown_drained [of e st took] Pair by simp
  next
    case (Some err)
    then show ?thesis
      using main_shutdown_failed [of e st err took] Pair by simp
  qed
qed

lemma received_form:
  assumes "received_shape t0 p"
  shows "\<exists>sg rest. notified sg \<and> trace (ps p) = ChanSend sg # ChanRecv sg # rest \<and>
           recvs rest = [] \<and> length (sends rest) \<le> 1 \<and> (\<forall>s\<in>set (sends rest). notified s) \<and>
           length (stop p) \<le> 1"
  using assms by (auto simp add: received_shape_def)

lemma ended_form:
  assumes "ended_shape e t0 c p"
  shows "\<exists>sg rest. notified sg \<and> trace (ps p) = ChanSend sg # ChanRecv sg # rest \<and>
           recvs rest = [] \<and> length (sends rest) \<le> 1 \<and> (\<forall>s\<in>set (sends rest). notified s) \<and>
           length (stop p) \<le> 1"
proof -
  obtain q where q: "received_shape t0 q" and s: "stop p = stop q"
    and t: "ps p = snd (main_shutdown e cleanup (ps q))"
    using assms by (auto simp add: ended_shape_def)
  obtain sg rest where f: "notified sg" "trace (ps q) = ChanSend sg # ChanRecv sg # rest"
      "recvs rest = []" "length (sends rest) \<le> 1" "\<forall>s\<in>set (sends rest). notified s"
      "length (stop q) \<le> 1"
    using received_form [OF q] by blast
  obtain tl where tl: "trace (snd (main_shutdown e cleanup (ps q))) = trace (ps q) @ tl"
      "sends tl = []" "recvs tl = []"
    using main_shutdown_tail [of e "ps q"] by blast
  have "trace (ps p) = ChanSend sg # ChanRecv sg # (rest @ tl)"
    by (simp add: t tl(1) f(2))
  moreover have "recvs (rest @ tl) = []" "length (sends (rest @ tl)) \<le> 1"
      "\<forall>s\<in>set (sends (rest @ tl)). notified s"
    using f tl by simp_all
  ultimately show ?thesis
    using f(1) f(6) s by auto
qed

lemma invariant_form:
  assumes "run_invariant e t0 p"
  shows "length (stop p) \<le> 1 \<and>
         (trace (ps p) = [] \<or>
          (\<exists>sg. notified sg \<and> trace (ps p) = [ChanSend sg]) \<or>
          (\<exists>sg rest. notified sg \<and> trace (ps p) = ChanSend sg # ChanRecv sg # rest \<and>
             recvs rest = [] \<and> length (sends rest) \<le> 1 \<and> (\<forall>s\<in>set (sends rest). notified s)))"
proof (cases "phase p")
  case Waiting
  then show ?thesis
    using assms by (auto simp add: run_invariant_def waiting_shape_def)
next
  case ShuttingDown
  then show ?thesis
    using assms received_form [of t0 p] by (simp add: run_invariant_def) blast
next
  case (Ended c)
  then show ?thesis
    using assms ended_form [of e t0 c p] by (simp add: run_invariant_def) blast
next
  case (Killed sg)
  then have "waiting_shape t0 p \<or> received_shape t0 p"
    using assms by (simp add: run_invariant_def)
  then show ?thesis
  proof
    assume "waiting_shape t0 p"
    then show ?thesis by (auto simp add: waiting_shape_def)
  next
    assume "received_shape t0 p"
    then show ?thesis using received_form [of t0 p] by blast
  qed
qed

lemma invariant_past_receive:
  assumes "run_invariant e t0 p" and "phase p = ShuttingDown \<or> phase p = Ended c"
  shows "\<exists>sg rest. notified sg \<and> trace (ps p) = ChanSend sg # ChanRecv sg # rest \<and> recvs rest = []"
  using assms received_form [of t0 p] ended_form [of e t0 c p]
  by (auto simp add: run_invariant_def)

lemma invariant_waiting:
  assumes "run_invariant e t0 p" and "phase p = Waiting"
  shows "trace (ps p) = [] \<or> (\<exists>sg. trace (ps p) = [ChanSend sg])"
  using assms by (auto simp add: run_invariant_def waiting_shape_def)

lemma form_facts:
  assumes "tr = [] \<or>
          (\<exists>sg. notified sg \<and> tr = [ChanSend sg]) \<or>
          (\<exists>sg rest. notified sg \<and> tr = ChanSend sg # ChanRecv sg # rest \<and>
             recvs rest = [] \<and> length (sends rest) \<le> 1 \<and> (\<forall>s\<in>set (sends rest). notified s))"
  shows "length (recvs tr) \<le> 1" and "length (sends (before_recv tr)) \<le> 1"
    and "length (sends tr) \<le> 2" and "prefix (recvs tr) (sends tr)"
    and "\<forall>ev\<in>set (before_recv tr). is_send ev" and "\<forall>s\<in>set (sends tr). notified s"
  using assms by (auto simp add: before_recv_def)

lemma step_sends:
  "set (sends (trace (ps (step e p a)))) \<subseteq> set (sends (trace (ps p))) \<union> {s. a = Deliver s}"
proof -
  have m: "sends (trace (snd (main_shutdown e cleanup st))) = sends (trace st)" for st
    using main_shutdown_tail [of e st] by auto
  show ?thesis
    using m [of "ps p"]
    by (cases "main_shutdown e cleanup (ps p)")
      (auto simp add: step_def deliver_def run_main_def
        split: phase.split action.split list.split)
qed

lemma sends_were_delivered:
  "s \<in> set (sends (trace (ps (run e (start t0) sch)))) \<Longrightarrow> Deliver s \<in> set sch"
proof (induction sch rule: rev_induct)
  case Nil
  then show ?case by (simp add: run_Nil start_def)
next
  case (snoc a sch)
  then show ?case
    using step_sends [of e "run e (start t0) sch" a] by (auto simp add: run_snoc)
qed

text \<open>
  Claim C7, as stated: the channel is written once by the signal trap. It fails when a
  second termination signal arrives after the main path has read the first: the slot
  is free again, and the trap writes the second signal into it, where it stays.
\<close>

theorem channel_written_twice:
  "sends (trace (ps (run (env0 0) (start 0) [Deliver SIGINT, Run, Deliver SIGTERM]))) =
     [SIGINT, SIGTERM] \<and>
   recvs (trace (ps (run (env0 0) (start 0) [Deliver SIGINT, Run, Deliver SIGTERM]))) = [SIGINT] \<and>
   length (sends (trace (ps (run (env0 0) (start 0) [Deliver SIGINT, Run, Deliver SIGTERM])))) = 2"
  by (simp add: run_def step_def deliver_def run_main_def start_def notified_def chan_capacity_def
      SIGINT_def SIGTERM_def)


text \<open>
  Claim C7, amended. A signal delivered to the waiting process takes the main path past
  the receive exactly when it is SIGINT or SIGTERM. In every run, whatever the schedule:
  the channel has one slot and never holds more; the main path reads it at most once,
  and exactly once when the shutdown is under way or over; the trap writes it at most
  once before that read and at most twice in all; what is read was written before, and
  only SIGINT and SIGTERM are ever written; everything in the trace before the read is a
  write of the channel, so nothing of the shutdown (no log line, token, cleanup or drain)
  comes before it, and while the main path waits the trace holds nothing else; and when
  the shutdown is under way or over, a SIGINT or a SIGTERM was delivered.
\<close>

theorem signals_and_channel:
  "((phase (run e (start t0) [Deliver sg, Run]) = ShuttingDown) = (sg = SIGINT \<or> sg = SIGTERM)) \<and>
   chan_capacity = 1 \<and>
   length (stop (run e (start t0) sch)) \<le> chan_capacity \<and>
   length (recvs (trace (ps (run e (start t0) sch)))) \<le> 1 \<and>
   length (sends (before_recv (trace (ps (run e (start t0) sch))))) \<le> 1 \<and>
   length (sends (trace (ps (run e (start t0) sch)))) \<le> 2 \<and>
   prefix (recvs (trace (ps (run e (start t0) sch)))) (sends (trace (ps (run e (start t0) sch)))) \<and>
   (\<forall>ev\<in>set (before_recv (trace (ps (run e (start t0) sch)))). is_send ev) \<and>
   (\<forall>s\<in>set (sends (trace (ps (run e (start t0) sch)))). s = SIGINT \<or> s = SIGTERM) \<and>
   (phase (run e (start t0) sch) = Waiting \<longrightarrow>
      (\<forall>ev\<in>set (trace (ps (run e (start t0) sch))). is_send ev)) \<and>
   (phase (run e (start t0) sch) = ShuttingDown \<or> (\<exists>c. phase (run e (start t0) sch) = Ended c) \<longrightarrow>
      length (recvs (trace (ps (run e (start t0) sch)))) = 1 \<and>
      (Deliver SIGINT \<in> set sch \<or> Deliver SIGTERM \<in> set sch))"
proof -
  let ?p = "run e (start t0) sch"
  let ?tr = "trace (ps ?p)"
  have first: "(phase (run e (start t0) [Deliver sg, Run]) = ShuttingDown) = (sg = SIGINT \<or> sg = SIGTERM)"
    by (simp add: run_def step_def deliver_def run_main_def start_def notified_def chan_capacity_def)
  have inv: "run_invariant e t0 ?p"
    by (rule invariant_run)
  note form = invariant_form [OF inv]
  from form have cap: "length (stop ?p) \<le> chan_capacity"
    by (simp add: chan_capacity_def)
  from form have f: "?tr = [] \<or>
          (\<exists>sg. notified sg \<and> ?tr = [ChanSend sg]) \<or>
          (\<exists>sg rest. notified sg \<and> ?tr = ChanSend sg # ChanRecv sg # rest \<and>
             recvs rest = [] \<and> length (sends rest) \<le> 1 \<and> (\<forall>s\<in>set (sends rest). notified s))"
    by blast
  note facts = form_facts [OF f]
  have sigs: "\<forall>s\<in>set (sends ?tr). s = SIGINT \<or> s = SIGTERM"
    using facts(6) by (simp add: notified_def)
  have waiting: "phase ?p = Waiting \<longrightarrow> (\<forall>ev\<in>set ?tr. is_send ev)"
    using invariant_waiting [OF inv] by auto
  have past: "phase ?p = ShuttingDown \<or> (\<exists>c. phase ?p = Ended c) \<longrightarrow>
      length (recvs ?tr) = 1 \<and> (Deliver SIGINT \<in> set sch \<or> Deliver SIGTERM \<in> set sch)"
  proof
    assume a: "phase ?p = ShuttingDown \<or> (\<exists>c. phase ?p = Ended c)"
    then obtain c where "phase ?p = ShuttingDown \<or> phase ?p = Ended c"
      by blast
    then obtain s rest where r: "notified s" "?tr = ChanSend s # ChanRecv s # rest" "recvs rest = []"
      using invariant_past_receive [OF inv] by blast
    have "s \<in> set (sends ?tr)"
      by (simp add: r(2))
    then have "Deliver s \<in> set sch"
      by (rule sends_were_delivered)
    then have "Deliver SIGINT \<in> set sch \<or> Deliver SIGTERM \<in> set sch"
      using r(1) by (auto simp add: notified_def)
    moreover have "length (recvs ?tr) = 1"
      by (simp add: r(2) r(3))
    ultimately show "length (recvs ?tr) = 1 \<and> (Deliver SIGINT \<in> set sch \<or> Deliver SIGTERM \<in> set sch)"
      by simp
  qed
  show ?thesis
    using first cap facts(1-5) sigs waiting past
    by (simp add: chan_capacity_def)
qed

theorem signals_and_channel_witness:
  "phase (run (env0 0) (start 0) [Deliver SIGTERM, Run]) = ShuttingDown \<and>
   phase (run (env0 0) (start 0) [Deliver 1, Run]) \<noteq> ShuttingDown \<and>
   phase (run (env0 0) (start 0)
      [Deliver SIGINT, Deliver SIGTERM, Run, Deliver SIGTERM, Run]) = Ended 0 \<and>
   length (recvs (trace (ps (run (env0 0) (start 0)
      [Deliver SIGINT, Deliver SIGTERM, Run, Deliver SIGTERM, Run])))) = 1 \<and>
   length (sends (before_recv (trace (ps (run (env0 0) (start 0)
      [Deliver SIGINT, Deliver SIGTERM, Run, Deliver SIGTERM, Run]))))) \<le> 1 \<and>
   length (stop (run (env0 0) (start 0)
      [Deliver SIGINT, Deliver SIGTERM, Run, Deliver SIGTERM, Run])) \<le> chan_capacity \<and>
   sends (trace (ps (run (env0 0) (start 0)
      [Deliver SIGINT, Deliver SIGTERM, Run, Deliver SIGTERM, Run]))) = [SIGINT, SIGTERM] \<and>
   phase (run (env0 0) (start 0) [Deliver SIGINT]) = Waiting \<and>
   trace (ps (run (env0 0) (start 0) [Deliver SIGINT])) = [ChanSend SIGINT]"
proof -
  let ?sch = "[Deliver SIGINT, Deliver SIGTERM, Run, Deliver SIGTERM, Run]"
  note t1 = signals_and_channel [of "env0 0" 0 SIGTERM ?sch]
  note t2 = signals_and_channel [of "env0 0" 0 1 "[Deliver SIGINT]"]
  have ph: "phase (run (env0 0) (start 0) ?sch) = Ended 0"
    by (simp add: run_def step_def deliver_def run_main_def start_def notified_def
        chan_capacity_def SIGINT_def SIGTERM_def main_shutdown_def main_guarded_def cleanup_def
        logger_Println_trace time_Sleep_def context_WithTimeout_def server_Shutdown_def cancel_def
        env0_def drain_needing_def Second_def)
  have sn: "sends (trace (ps (run (env0 0) (start 0) ?sch))) = [SIGINT, SIGTERM]"
    by (simp add: run_def step_def deliver_def run_main_def start_def notified_def
        chan_capacity_def SIGINT_def SIGTERM_def main_shutdown_def main_guarded_def cleanup_def
        logger_Println_trace time_Sleep_def context_WithTimeout_def server_Shutdown_def cancel_def
        env0_def drain_needing_def Second_def)
  have w: "phase (run (env0 0) (start 0) [Deliver SIGINT]) = Waiting"
    and wt: "trace (ps (run (env0 0) (start 0) [Deliver SIGINT])) = [ChanSend SIGINT]"
    by (simp_all add: run_def step_def deliver_def start_def notified_def chan_capacity_def)
  have a: "phase (run (env0 0) (start 0) [Deliver SIGTERM, Run]) = ShuttingDown"
    using t1 by blast
  from t2 have "(phase (run (env0 0) (start 0) [Deliver 1, Run]) = ShuttingDown) =
      (1 = SIGINT \<or> 1 = SIGTERM)"
    by blast
  then have b: "phase (run (env0 0) (start 0) [Deliver 1, Run]) \<noteq> ShuttingDown"
    by (simp add: SIGINT_def SIGTERM_def)
  have c: "length (recvs (trace (ps (run (env0 0) (start 0) ?sch)))) = 1"
    using t1 ph by blast
  have d: "length (sends (before_recv (trace (ps (run (env0 0) (start 0) ?sch))))) \<le> 1"
    using t1 by blast
  have k: "length (stop (run (env0 0) (start 0) ?sch)) \<le> chan_capacity"
    using t1 by blast
  show ?thesis
    by (intro conjI a b ph c d k sn w wt)
qed

text \<open>
  Claim C6. A SIGINT or SIGTERM is delivered, and the drain reports no error. Then the
  main path reads the signal, logs \<^verbatim>\<open>Shutdown signal received. Cleaning up...\<close>, makes the
  token, logs \<^verbatim>\<open>Cleaning up resources (DB, caches, etc.)...\<close>, sleeps, logs
  \<^verbatim>\<open>Cleanup complete. Server shutting down.\<close>, calls the drain, logs
  \<^verbatim>\<open>Server exited gracefully.\<close>, cancels the token and returns with status 0, in this
  order; these four are all the lines it logs, so none is a fatal one. The same holds of
  every run that ends, however the signals and the steps of the main path interleave:
  apart from writes of the channel, its trace is this sequence. (The lines quoted in the
  claim are the beginnings of the first three lines and the whole of the fourth.)
\<close>

theorem graceful_shutdown_order:
  assumes "sg = SIGINT \<or> sg = SIGTERM"
    and "drain e (t0 + 2 * Second) (t0 + 5 * Second) = (None, took)"
  shows "run e (start t0) [Deliver sg, Run, Run] =
           \<lparr>stop = [], phase = Ended 0,
            ps = \<lparr>clock = t0 + 2 * Second + took,
                  trace =
                    [ChanSend sg, ChanRecv sg,
                     Logged (''Shutdown signal received. Cleaning up...'' @ [NL]),
                     CtxCreated (t0 + 5 * Second),
                     Logged (''Cleaning up resources (DB, caches, etc.)...'' @ [NL]),
                     Slept (2 * Second),
                     Logged (''Cleanup complete. Server shutting down.'' @ [NL]),
                     DrainCalled (t0 + 2 * Second) (t0 + 5 * Second),
                     Logged (''Server exited gracefully.'' @ [NL]),
                     CtxCancelled]\<rparr>\<rparr> \<and>
         (\<forall>sch c. phase (run e (start t0) sch) = Ended c \<longrightarrow>
            c = 0 \<and>
            logs (trace (ps (run e (start t0) sch))) =
              [''Shutdown signal received. Cleaning up...'' @ [NL],
               ''Cleaning up resources (DB, caches, etc.)...'' @ [NL],
               ''Cleanup complete. Server shutting down.'' @ [NL],
               ''Server exited gracefully.'' @ [NL]] \<and>
            (\<exists>s. (s = SIGINT \<or> s = SIGTERM) \<and>
               filter (\<lambda>ev. \<not> is_send ev) (trace (ps (run e (start t0) sch))) =
                 [ChanRecv s,
                  Logged (''Shutdown signal received. Cleaning up...'' @ [NL]),
                  CtxCreated (t0 + 5 * Second),
                  Logged (''Cleaning up resources (DB, caches, etc.)...'' @ [NL]),
                  Slept (2 * Second),
                  Logged (''Cleanup complete. Server shutting down.'' @ [NL]),
                  DrainCalled (t0 + 2 * Second) (t0 + 5 * Second),
                  Logged (''Server exited gracefully.'' @ [NL]),
                  CtxCancelled]))"
proof (intro conjI allI impI)
  have n: "notified sg"
    using assms(1) by (simp add: notified_def)
  let ?q = "\<lparr>clock = t0, trace = [ChanSend sg, ChanRecv sg]\<rparr>"
  have d: "drain e (clock ?q + 2 * Second) (clock ?q + 5 * Second) = (None, took)"
    using assms(2) by simp
  note m = main_shutdown_drained [OF d]
  show "run e (start t0) [Deliver sg, Run, Run] =
           \<lparr>stop = [], phase = Ended 0,
            ps = \<lparr>clock = t0 + 2 * Second + took,
                  trace =
                    [ChanSend sg, ChanRecv sg,
                     Logged (''Shutdown signal received. Cleaning up...'' @ [NL]),
                     CtxCreated (t0 + 5 * Second),
                     Logged (''Cleaning up resources (DB, caches, etc.)...'' @ [NL]),
                     Slept (2 * Second),
                     Logged (''Cleanup complete. Server shutting down.'' @ [NL]),
                     DrainCalled (t0 + 2 * Second) (t0 + 5 * Second),
                     Logged (''Server exited gracefully.'' @ [NL]),
                     CtxCancelled]\<rparr>\<rparr>"
    using n m
    by (simp add: run_def step_def deliver_def run_main_def start_def chan_capacity_def)
next
  fix sch c
  assume a: "phase (run e (start t0) sch) = Ended c"
  let ?p = "run e (start t0) sch"
  have "ended_shape e t0 c ?p"
    using invariant_run [of e t0 sch] a by (simp add: run_invariant_def)
  then obtain q where q: "received_shape t0 q"
    and t: "ps ?p = snd (main_shutdown e cleanup (ps q))"
    and x: "c = exit_code (fst (main_shutdown e cleanup (ps q)))"
    by (auto simp add: ended_shape_def)
  have k: "clock (ps q) = t0"
    using q by (simp add: received_shape_def)
  have d: "drain e (clock (ps q) + 2 * Second) (clock (ps q) + 5 * Second) = (None, took)"
    using assms(2) k by simp
  note m = main_shutdown_drained [OF d]
  obtain s where s: "notified s" and l: "logs (trace (ps q)) = []"
    and f: "filter (\<lambda>ev. \<not> is_send ev) (trace (ps q)) = [ChanRecv s]"
    using q by (auto simp add: received_shape_def)
  show "c = 0"
    by (simp add: x m)
  show "logs (trace (ps ?p)) =
              [''Shutdown signal received. Cleaning up...'' @ [NL],
               ''Cleaning up resources (DB, caches, etc.)...'' @ [NL],
               ''Cleanup complete. Server shutting down.'' @ [NL],
               ''Server exited gracefully.'' @ [NL]]"
    by (simp add: t m l)
  have "filter (\<lambda>ev. \<not> is_send ev) (trace (ps ?p)) =
                 [ChanRecv s,
                  Logged (''Shutdown signal received. Cleaning up...'' @ [NL]),
                  CtxCreated (t0 + 5 * Second),
                  Logged (''Cleaning up resources (DB, caches, etc.)...'' @ [NL]),
                  Slept (2 * Second),
                  Logged (''Cleanup complete. Server shutting down.'' @ [NL]),
                  DrainCalled (t0 + 2 * Second) (t0 + 5 * Second),
                  Logged (''Server exited gracefully.'' @ [NL]),
                  CtxCancelled]"
    by (simp add: t m f k)
  then show "\<exists>s. (s = SIGINT \<or> s = SIGTERM) \<and>
               filter (\<lambda>ev. \<not> is_send ev) (trace (ps ?p)) =
                 [ChanRecv s,
                  Logged (''Shutdown signal received. Cleaning up...'' @ [NL]),
                  CtxCreated (t0 + 5 * Second),
                  Logged (''Cleaning up resources (DB, caches, etc.)...'' @ [NL]),
                  Slept (2 * Second),
                  Logged (''Cleanup complete. Server shutting down.'' @ [NL]),
                  DrainCalled (t0 + 2 * Second) (t0 + 5 * Second),
                  Logged (''Server exited gracefully.'' @ [NL]),
                  CtxCancelled]"
    using s by (auto simp add: notified_def)
qed

theorem graceful_shutdown_order_witness:
  "(SIGTERM = SIGINT \<or> SIGTERM = SIGTERM) \<and>
   drain (env0 Second) (0 + 2 * Second) (0 + 5 * Second) = (None, Second) \<and>
   run (env0 Second) (start 0) [Deliver SIGTERM, Run, Run] =
     \<lparr>stop = [], phase = Ended 0,
      ps = \<lparr>clock = 3 * Second,
            trace =
              [ChanSend SIGTERM, ChanRecv SIGTERM,
               Logged (''Shutdown signal received. Cleaning up...'' @ [NL]),
               CtxCreated (5 * Second),
               Logged (''Cleaning up resources (DB, caches, etc.)...'' @ [NL]),
               Slept (2 * Second),
               Logged (''Cleanup complete. Server shutting down.'' @ [NL]),
               DrainCalled (2 * Second) (5 * Second),
               Logged (''Server exited gracefully.'' @ [NL]),
               CtxCancelled]\<rparr>\<rparr> \<and>
   logs (trace (ps (run (env0 Second) (start 0) [Deliver SIGTERM, Run, Run]))) =
     [''Shutdown signal received. Cleaning up...'' @ [NL],
      ''Cleaning up resources (DB, caches, etc.)...'' @ [NL],
      ''Cleanup complete. Server shutting down.'' @ [NL],
      ''Server exited gracefully.'' @ [NL]]"
proof -
  have a: "SIGTERM = SIGINT \<or> SIGTERM = SIGTERM"
    by simp
  have d: "drain (env0 Second) (0 + 2 * Second) (0 + 5 * Second) = (None, Second)"
    by (simp add: env0_def drain_needing_def Second_def)
  note t = graceful_shutdown_order [OF a d]
  from t have "run (env0 Second) (start 0) [Deliver SIGTERM, Run, Run] =
     \<lparr>stop = [], phase = Ended 0,
      ps = \<lparr>clock = 0 + 2 * Second + Second,
            trace =
              [ChanSend SIGTERM, ChanRecv SIGTERM,
               Logged (''Shutdown signal received. Cleaning up...'' @ [NL]),
               CtxCreated (0 + 5 * Second),
               Logged (''Cleaning up resources (DB, caches, etc.)...'' @ [NL]),
               Slept (2 * Second),
               Logged (''Cleanup complete. Server shutting down.'' @ [NL]),
               DrainCalled (0 + 2 * Second) (0 + 5 * Second),
               Logged (''Server exited gracefully.'' @ [NL]),
               CtxCancelled]\<rparr>\<rparr>"
    by blast
  then have r: "run (env0 Second) (start 0) [Deliver SIGTERM, Run, Run] =
     \<lparr>stop = [], phase = Ended 0,
      ps = \<lparr>clock = 3 * Second,
            trace =
              [ChanSend SIGTERM, ChanRecv SIGTERM,
               Logged (''Shutdown signal received. Cleaning up...'' @ [NL]),
               CtxCreated (5 * Second),
               Logged (''Cleaning up resources (DB, caches, etc.)...'' @ [NL]),
               Slept (2 * Second),
               Logged (''Cleanup complete. Server shutting down.'' @ [NL]),
               DrainCalled (2 * Second) (5 * Second),
               Logged (''Server exited gracefully.'' @ [NL]),
               CtxCancelled]\<rparr>\<rparr>"
    by simp
  have l: "logs (trace (ps (run (env0 Second) (start 0) [Deliver SIGTERM, Run, Run]))) =
     [''Shutdown signal received. Cleaning up...'' @ [NL],
      ''Cleaning up resources (DB, caches, etc.)...'' @ [NL],
      ''Cleanup complete. Server shutting down.'' @ [NL],
      ''Server exited gracefully.'' @ [NL]]"
    by (simp add: r)
  show ?thesis
    by (intro conjI a d r l)
qed

end
